theory Spec2Isabelle
  imports Complex_Main "HOL-Library.Sublist"
begin

section \<open>Values of the host language\<close>

text \<open>
  The query engine of \<^verbatim>\<open>src/exercises/exercise-13/database.ts\<close> and
  \<^verbatim>\<open>src/exercises/exercise-14/database.ts\<close> is TypeScript: its records are
  objects decoded by \<^verbatim>\<open>JSON.parse\<close>, and its operators are those of JavaScript.
  The values a field or an operand can hold are modelled as follows.
  \<^item> A number is an exact rational, \<open>NaN\<close> or an infinity. Rounding to a double and
    the sign of zero are not modelled; no operation of the engine computes with numbers,
    it only compares them, and \<open>-0\<close> compares like \<open>0\<close> everywhere.
  \<^item> A string is a list of code units, each below 256 (\<open>char\<close> is 8 bits wide).
  \<^item> A value that a record owns is a primitive (\<open>undefined\<close>, \<open>null\<close>, a boolean,
    a number, a string). Nested arrays and objects inside a record are outside the
    model.
  \<^item> An object is the list of its own enumerable properties, in the order
    \<^verbatim>\<open>Object.keys\<close> and \<^verbatim>\<open>for ... in\<close> report them. Reading a property that
    the object does not own gives the member of that name inherited from
    \<^verbatim>\<open>Object.prototype\<close>, written \<open>JInherited name\<close> (a function, or for
    \<^verbatim>\<open>__proto__\<close> the prototype itself), and \<open>undefined\<close> when there is none.
\<close>

datatype number = Finite rat | NaN | PosInfinity | NegInfinity

datatype jsval =
    JUndefined
  | JNull
  | JBoolean bool
  | JNumber number
  | JString string
  | JInherited string

type_synonym entry = "(string \<times> jsval) list"

datatype error = IOError | SyntaxError_JSON | SyntaxError_RegExp | TypeError

text \<open>The names of the members of \<^verbatim>\<open>Object.prototype\<close>.\<close>

definition Object_prototype_names :: "string list" where
  "Object_prototype_names =
     [''constructor'', ''hasOwnProperty'', ''isPrototypeOf'', ''propertyIsEnumerable'',
      ''toLocaleString'', ''toString'', ''valueOf'', ''__defineGetter__'',
      ''__defineSetter__'', ''__lookupGetter__'', ''__lookupSetter__'', ''__proto__'']"

text \<open>
  \<^verbatim>\<open>entry[field]\<close>: the own property, else the inherited member, else \<open>undefined\<close>.
\<close>

definition get_field :: "entry \<Rightarrow> string \<Rightarrow> jsval" where
  "get_field e f =
     (case map_of e f of
        Some v \<Rightarrow> v
      | None \<Rightarrow> if f \<in> set Object_prototype_names then JInherited f else JUndefined)"

text \<open>
  \<^verbatim>\<open>filter.hasOwnProperty\<close> is the inherited function unless the filter owns a key of
  that name; then it is that property's value, a condition or \<open>undefined\<close>, and
  calling it throws a \<^verbatim>\<open>TypeError\<close>.
\<close>

definition hasOwnProperty_shadowed :: "(string \<times> 'v) list \<Rightarrow> bool" where
  "hasOwnProperty_shadowed obj = (''hasOwnProperty'' \<in> set (map fst obj))"

text \<open>\<^verbatim>\<open>if (v)\<close>: the conversion to a boolean.\<close>

fun truthy :: "jsval \<Rightarrow> bool" where
  "truthy JUndefined = False"
| "truthy JNull = False"
| "truthy (JBoolean b) = b"
| "truthy (JNumber n) = (n \<noteq> Finite 0 \<and> n \<noteq> NaN)"
| "truthy (JString s) = (s \<noteq> [])"
| "truthy (JInherited n) = True"

text \<open>
  \<^verbatim>\<open>x === y\<close>: equal types and equal values, \<open>NaN\<close> equal to nothing; two inherited
  members are equal when they are the same member.
\<close>

fun strict_equals :: "jsval \<Rightarrow> jsval \<Rightarrow> bool" where
  "strict_equals (JNumber x) (JNumber y) = (x \<noteq> NaN \<and> y \<noteq> NaN \<and> x = y)"
| "strict_equals x y = (x = y)"

text \<open>
  \<^verbatim>\<open>xs.includes(v)\<close> compares with SameValueZero, which differs from \<open>===\<close> only in
  that \<open>NaN\<close> is equal to itself.
\<close>

definition same_value_zero :: "jsval \<Rightarrow> jsval \<Rightarrow> bool" where
  "same_value_zero x y = (x = y)"

definition array_includes :: "jsval list \<Rightarrow> jsval \<Rightarrow> bool" where
  "array_includes xs v = list_ex (\<lambda>x. same_value_zero x v) xs"

text \<open>
  \<^verbatim>\<open>x < y\<close>: an inherited member is first converted to a primitive, the string its
  \<^verbatim>\<open>toString\<close> gives. Then two strings are compared code unit by code unit; in every
  other case both sides are converted to numbers, and the comparison is false when
  either is \<open>NaN\<close>. The two conversions are the host's (see below).
\<close>

fun number_less :: "number \<Rightarrow> number \<Rightarrow> bool" where
  "number_less NaN y = False"
| "number_less x NaN = False"
| "number_less (Finite a) (Finite b) = (a < b)"
| "number_less (Finite a) PosInfinity = True"
| "number_less (Finite a) NegInfinity = False"
| "number_less PosInfinity y = False"
| "number_less NegInfinity NegInfinity = False"
| "number_less NegInfinity y = True"

fun string_less :: "string \<Rightarrow> string \<Rightarrow> bool" where
  "string_less [] [] = False"
| "string_less [] (y # ys) = True"
| "string_less (x # xs) [] = False"
| "string_less (x # xs) (y # ys) =
     (if (of_char x :: nat) < of_char y then True
      else if x = y then string_less xs ys
      else False)"

section \<open>The host environment\<close>

text \<open>
  The engine calls six services that are not code of the repository. The model takes
  them as one parameter \<open>h\<close>:
  \<^item> \<open>readFile h name\<close> is the content of the file, \<open>None\<close> when reading fails;
  \<^item> \<open>JSON_parse h s\<close> is the record \<^verbatim>\<open>JSON.parse(s)\<close> returns, \<open>None\<close> when it
    throws a \<^verbatim>\<open>SyntaxError\<close>; the engine types the result as a record, and payloads that
    decode to something other than an object are outside the model;
  \<^item> \<open>RegExp h pattern flags\<close> is \<^verbatim>\<open>new RegExp(pattern, flags)\<close>: \<open>None\<close> when the
    constructor throws a \<^verbatim>\<open>SyntaxError\<close>, otherwise the function \<^verbatim>\<open>test\<close> of the
    expression (without the flags \<open>g\<close> and \<open>y\<close> it keeps no state);
  \<^item> \<open>StringToNumber h s\<close> is the number the string \<open>s\<close> converts to;
  \<^item> \<open>InheritedToString h name\<close> is the string that the member \<open>name\<close> of
    \<^verbatim>\<open>Object.prototype\<close> converts to;
  \<^item> \<open>Array_sort h cmp xs\<close> is the array after \<^verbatim>\<open>xs.sort(cmp)\<close>.
\<close>

record host =
  readFile :: "string \<Rightarrow> string option"
  JSON_parse :: "string \<Rightarrow> entry option"
  RegExp :: "string \<Rightarrow> string \<Rightarrow> (string \<Rightarrow> bool) option"
  StringToNumber :: "string \<Rightarrow> number"
  InheritedToString :: "string \<Rightarrow> string"
  Array_sort :: "(entry \<Rightarrow> entry \<Rightarrow> int) \<Rightarrow> entry list \<Rightarrow> entry list"

fun to_number :: "host \<Rightarrow> jsval \<Rightarrow> number" where
  "to_number h JUndefined = NaN"
| "to_number h JNull = Finite 0"
| "to_number h (JBoolean b) = (if b then Finite 1 else Finite 0)"
| "to_number h (JNumber n) = n"
| "to_number h (JString s) = StringToNumber h s"
| "to_number h (JInherited n) = StringToNumber h (InheritedToString h n)"

fun to_primitive :: "host \<Rightarrow> jsval \<Rightarrow> jsval" where
  "to_primitive h (JInherited n) = JString (InheritedToString h n)"
| "to_primitive h v = v"

fun less_primitive :: "host \<Rightarrow> jsval \<Rightarrow> jsval \<Rightarrow> bool" where
  "less_primitive h (JString a) (JString b) = string_less a b"
| "less_primitive h x y = number_less (to_number h x) (to_number h y)"

definition js_less :: "host \<Rightarrow> jsval \<Rightarrow> jsval \<Rightarrow> bool" where
  "js_less h x y = less_primitive h (to_primitive h x) (to_primitive h y)"

text \<open>\<^verbatim>\<open>x > y\<close> is \<^verbatim>\<open>y < x\<close> with the operands evaluated in source order.\<close>

definition js_greater :: "host \<Rightarrow> jsval \<Rightarrow> jsval \<Rightarrow> bool" where
  "js_greater h x y = js_less h y x"

text \<open>
  \<^verbatim>\<open>s.split(sep)\<close> for a separator that matches exactly one code unit: the pieces
  between the separators, empty pieces kept; the empty string gives one empty piece.
\<close>

fun split_on :: "(char \<Rightarrow> bool) \<Rightarrow> string \<Rightarrow> string list" where
  "split_on p [] = [[]]"
| "split_on p (c # cs) =
     (if p c then [] # split_on p cs
      else (case split_on p cs of
              [] \<Rightarrow> [[c]]
            | w # ws \<Rightarrow> (c # w) # ws))"

text \<open>The class \<^verbatim>\<open>\s\<close> of a regular expression, among the code units below 256.\<close>

definition is_whitespace :: "char \<Rightarrow> bool" where
  "is_whitespace c = ((of_char c :: nat) \<in> {9, 10, 11, 12, 13, 32, 160})"

definition is_newline :: "char \<Rightarrow> bool" where
  "is_newline c = ((of_char c :: nat) = 10)"

section \<open>The filters\<close>

text \<open>
  \<^verbatim>\<open>type ConditionalFilter<T> = {[K in keyof T]?: {$eq?: T[K]; $gt?: T[K]; $lt?: T[K]; $in?: T[K][]}}\<close>

  An operator that is absent reads as \<open>undefined\<close>, so \<open>dollar_eq\<close>, \<open>dollar_gt\<close> and
  \<open>dollar_lt\<close> are values; \<open>dollar_in\<close> is an array or \<open>undefined\<close> (\<open>None\<close>). A field
  of the filter is present with a condition, or present with the value \<open>undefined\<close>
  (\<open>None\<close>), which the optional property admits.
\<close>

record condition =
  dollar_eq :: jsval
  dollar_gt :: jsval
  dollar_lt :: jsval
  dollar_in :: "jsval list option"

type_synonym conditionalFilter = "(string \<times> condition option) list"

text \<open>
  \<^verbatim>\<open>type MultiFilter<T> = {[K in '$and' | '$or']?: ConditionalFilter<T>[]}\<close>,
  \<^verbatim>\<open>type TextFilter = {$text: string}\<close> and
  \<^verbatim>\<open>type Filter<T> = ConditionalFilter<T> | MultiFilter<T> | TextFilter\<close>.

  A filter is one object, and which of the three it is read as depends on the keys it
  has. The model keeps the three reserved keys apart from the field keys: \<open>dollar_and\<close>
  and \<open>dollar_or\<close> are missing, present with the value \<open>undefined\<close>, or present with an
  array; \<open>dollar_text\<close> is missing or a string; \<open>field_props\<close> holds every other own
  property.
\<close>

datatype 'a property = Missing | Undefined | Present 'a

record filter_obj =
  dollar_and :: "conditionalFilter list property"
  dollar_or :: "conditionalFilter list property"
  dollar_text :: "string option"
  field_props :: conditionalFilter

type_synonym sortOptions = "(string \<times> int) list"

type_synonym 'f projectionOptions = "(string \<times> 'f) list"

record 'f findOptions =
  sort_option :: "sortOptions option"
  projection_option :: "'f projectionOptions option"

text \<open>
  \<^verbatim>\<open>filter.hasOwnProperty('$text')\<close>; the call throws when a field of the filter is
  named \<^verbatim>\<open>hasOwnProperty\<close>.
\<close>

definition isTextFilter :: "filter_obj \<Rightarrow> error + bool" where
  "isTextFilter q =
     (if hasOwnProperty_shadowed (field_props q) then Inl TypeError
      else Inr (dollar_text q \<noteq> None))"

text \<open>\<^verbatim>\<open>filter.hasOwnProperty('$and') || filter.hasOwnProperty('$or')\<close>, likewise.\<close>

definition isMultiFilter :: "filter_obj \<Rightarrow> error + bool" where
  "isMultiFilter q =
     (if hasOwnProperty_shadowed (field_props q) then Inl TypeError
      else Inr (dollar_and q \<noteq> Missing \<or> dollar_or q \<noteq> Missing))"

text \<open>The class \<^verbatim>\<open>Database<T>\<close>: its two fields.\<close>

record database =
  filename :: string
  fullTextSearchFieldNames :: "string list"

definition ExistenceCharacter :: char where
  "ExistenceCharacter = CHR ''E''"

text \<open>
  The body of the loop of \<^verbatim>\<open>filterByConditionOrArray\<close> for one field whose condition
  is an object: the four operators in source order, each applied only when its operand
  is truthy.
\<close>

definition apply_condition :: "host \<Rightarrow> entry \<Rightarrow> string \<Rightarrow> condition \<Rightarrow> bool \<Rightarrow> bool" where
  "apply_condition h e field c result =
     (let r1 = (if truthy (dollar_eq c)
                then result \<and> strict_equals (get_field e field) (dollar_eq c) else result);
          r2 = (if truthy (dollar_lt c)
                then r1 \<and> js_less h (get_field e field) (dollar_lt c) else r1);
          r3 = (if truthy (dollar_gt c)
                then r2 \<and> js_greater h (get_field e field) (dollar_gt c) else r2)
      in (case dollar_in c of
            None \<Rightarrow> r3
          | Some xs \<Rightarrow> r3 \<and> array_includes xs (get_field e field)))"

text \<open>
  The loop \<^verbatim>\<open>for (let field in filter)\<close> with the running \<open>result\<close>. Each turn
  first calls \<^verbatim>\<open>filter.hasOwnProperty(field)\<close>, which throws a \<^verbatim>\<open>TypeError\<close> when
  the filter shadows that function (\<open>shadowed\<close>) and is true otherwise, the loop going
  over own properties. Reading \<^verbatim>\<open>condition.$eq\<close> of a field whose value is
  \<open>undefined\<close> throws a \<^verbatim>\<open>TypeError\<close> as well.
\<close>

fun condition_loop ::
  "host \<Rightarrow> entry \<Rightarrow> bool \<Rightarrow> conditionalFilter \<Rightarrow> bool \<Rightarrow> error + bool" where
  "condition_loop h e shadowed [] result = Inr result"
| "condition_loop h e shadowed ((field, condition) # rest) result =
     (if shadowed then Inl TypeError
      else (case condition of
              None \<Rightarrow> Inl TypeError
            | Some c \<Rightarrow>
                condition_loop h e shadowed rest (apply_condition h e field c result)))"

definition filterByConditionOrArray :: "host \<Rightarrow> entry \<Rightarrow> conditionalFilter \<Rightarrow> error + bool" where
  "filterByConditionOrArray h e flt =
     condition_loop h e (hasOwnProperty_shadowed flt) flt True"

text \<open>
  \<^verbatim>\<open>filter.$and.reduce((carry, condition) => carry && this.filterByConditionOrArray(entry, condition), true)\<close>:
  the callback runs for every element, and evaluates the sub-filter only while
  \<open>carry\<close> is true.
\<close>

fun reduce_and :: "host \<Rightarrow> entry \<Rightarrow> conditionalFilter list \<Rightarrow> bool \<Rightarrow> error + bool" where
  "reduce_and h e [] carry = Inr carry"
| "reduce_and h e (c # cs) carry =
     (if carry
      then (case filterByConditionOrArray h e c of
              Inl err \<Rightarrow> Inl err
            | Inr b \<Rightarrow> reduce_and h e cs b)
      else reduce_and h e cs False)"

fun reduce_or :: "host \<Rightarrow> entry \<Rightarrow> conditionalFilter list \<Rightarrow> bool \<Rightarrow> error + bool" where
  "reduce_or h e [] carry = Inr carry"
| "reduce_or h e (c # cs) carry =
     (if carry
      then reduce_or h e cs True
      else (case filterByConditionOrArray h e c of
              Inl err \<Rightarrow> Inl err
            | Inr b \<Rightarrow> reduce_or h e cs b))"

text \<open>
  \<^verbatim>\<open>if (filter.$and) ... else filter.$or!.reduce(...)\<close>: an array is always truthy, the
  value \<open>undefined\<close> is not, and \<^verbatim>\<open>reduce\<close> of \<open>undefined\<close> throws a
  \<^verbatim>\<open>TypeError\<close>.
\<close>

definition filterByMultiFilter :: "host \<Rightarrow> entry \<Rightarrow> filter_obj \<Rightarrow> error + bool" where
  "filterByMultiFilter h e q =
     (case dollar_and q of
        Present cs \<Rightarrow> reduce_and h e cs True
      | _ \<Rightarrow> (case dollar_or q of
                Present cs \<Rightarrow> reduce_or h e cs False
              | _ \<Rightarrow> Inl TypeError))"

text \<open>The pattern \<^verbatim>\<open>'\\b' + word + '\\b'\<close>: a backslash, the letter b, the word, and again.\<close>

definition word_pattern :: "string \<Rightarrow> string" where
  "word_pattern word = [CHR 0x5C, CHR ''b''] @ word @ [CHR 0x5C, CHR ''b'']"

text \<open>
  The inner loop of \<^verbatim>\<open>filterByText\<close> over the searchable fields, for one compiled
  expression: \<^verbatim>\<open>typeof entry[field] === 'string'\<close> holds of strings only.
\<close>

fun text_fields :: "(string \<Rightarrow> bool) \<Rightarrow> entry \<Rightarrow> string list \<Rightarrow> bool \<Rightarrow> bool" where
  "text_fields test e [] result = result"
| "text_fields test e (field # rest) result =
     (case get_field e field of
        JString s \<Rightarrow> text_fields test e rest (result \<or> test s)
      | _ \<Rightarrow> text_fields test e rest result)"

text \<open>The outer loop over the words: the expression is built before the fields are read.\<close>

fun text_words :: "host \<Rightarrow> string list \<Rightarrow> entry \<Rightarrow> string list \<Rightarrow> bool \<Rightarrow> error + bool" where
  "text_words h names e [] result = Inr result"
| "text_words h names e (word # rest) result =
     (case RegExp h (word_pattern word) ''i'' of
        None \<Rightarrow> Inl SyntaxError_RegExp
      | Some test \<Rightarrow> text_words h names e rest (text_fields test e names result))"

definition filterByText :: "host \<Rightarrow> database \<Rightarrow> entry \<Rightarrow> filter_obj \<Rightarrow> error + bool" where
  "filterByText h db e q =
     (case dollar_text q of
        None \<Rightarrow> Inl TypeError
      | Some text \<Rightarrow>
          text_words h (fullTextSearchFieldNames db) e (split_on is_whitespace text) False)"

section \<open>Ordering and projection (exercise 14)\<close>

text \<open>
  \<^verbatim>\<open>sort(a, b, sortOptions)\<close>: the loop over \<^verbatim>\<open>Object.keys(sortOptions)\<close>, each key with
  its direction, returning from inside the loop.
\<close>

fun sort' :: "host \<Rightarrow> entry \<Rightarrow> entry \<Rightarrow> sortOptions \<Rightarrow> int" where
  "sort' h a b [] = 0"
| "sort' h a b ((field, direction) # rest) =
     (if js_greater h (get_field a field) (get_field b field) then direction
      else if js_less h (get_field a field) (get_field b field) then - direction
      else sort' h a b rest)"

text \<open>
  \<^verbatim>\<open>{...newEntry, [field]: entry[field]}\<close>: a copy of \<open>newEntry\<close> in which \<open>field\<close>
  holds the value; a key that is already there keeps its place.
\<close>

fun set_property :: "string \<Rightarrow> jsval \<Rightarrow> entry \<Rightarrow> entry" where
  "set_property k v [] = [(k, v)]"
| "set_property k v ((k', v') # rest) =
     (if k' = k then (k, v) # rest else (k', v') # set_property k v rest)"

fun project_loop :: "entry \<Rightarrow> string list \<Rightarrow> entry \<Rightarrow> entry" where
  "project_loop e [] newEntry = newEntry"
| "project_loop e (field # rest) newEntry =
     project_loop e rest (set_property field (get_field e field) newEntry)"

definition project :: "entry \<Rightarrow> 'f projectionOptions \<Rightarrow> entry" where
  "project e projectionOptions = project_loop e (map fst projectionOptions) []"

section \<open>The query\<close>

text \<open>\<^verbatim>\<open>row.charAt(0) === ExistenceCharacter\<close>; \<^verbatim>\<open>charAt(0)\<close> of the empty row is empty.\<close>

definition isExist :: "string \<Rightarrow> bool" where
  "isExist row = (take 1 row = [ExistenceCharacter])"

text \<open>
  The loop over the rows: a row without the marker is passed over, the rest of a row
  with the marker (\<^verbatim>\<open>row.substr(1)\<close>) is parsed and pushed, and a parse error leaves the
  loop and the query at once.
\<close>

fun decode_rows :: "host \<Rightarrow> string list \<Rightarrow> entry list \<Rightarrow> error + entry list" where
  "decode_rows h [] entries = Inr entries"
| "decode_rows h (row # rows) entries =
     (if \<not> isExist row then decode_rows h rows entries
      else (case JSON_parse h (drop 1 row) of
              None \<Rightarrow> Inl SyntaxError_JSON
            | Some e \<Rightarrow> decode_rows h rows (entries @ [e])))"

text \<open>\<^verbatim>\<open>entries.filter(callback)\<close> for a callback that can throw.\<close>

fun array_filter :: "(entry \<Rightarrow> error + bool) \<Rightarrow> entry list \<Rightarrow> error + entry list" where
  "array_filter f [] = Inr []"
| "array_filter f (x # xs) =
     (case f x of
        Inl err \<Rightarrow> Inl err
      | Inr keep \<Rightarrow>
          (case array_filter f xs of
             Inl err \<Rightarrow> Inl err
           | Inr ys \<Rightarrow> Inr (if keep then x # ys else ys)))"

text \<open>
  The three-way choice of \<^verbatim>\<open>find\<close>, which both exercises write inline:
  \<^verbatim>\<open>if (isMultiFilter(query)) ... else if (isTextFilter(query)) ... else ...\<close>.
  In the last branch the filter has none of the reserved keys, so its own properties
  are its field properties.
\<close>

definition filter_entries :: "host \<Rightarrow> database \<Rightarrow> filter_obj \<Rightarrow> entry list \<Rightarrow> error + entry list" where
  "filter_entries h db query entries =
     (case isMultiFilter query of
        Inl err \<Rightarrow> Inl err
      | Inr True \<Rightarrow> array_filter (\<lambda>e. filterByMultiFilter h e query) entries
      | Inr False \<Rightarrow>
          (case isTextFilter query of
             Inl err \<Rightarrow> Inl err
           | Inr True \<Rightarrow> array_filter (\<lambda>e. filterByText h db e query) entries
           | Inr False \<Rightarrow>
               array_filter (\<lambda>e. filterByConditionOrArray h e (field_props query)) entries))"

text \<open>\<^verbatim>\<open>find(query)\<close> of exercise 13.\<close>

definition find13 :: "host \<Rightarrow> database \<Rightarrow> filter_obj \<Rightarrow> error + entry list" where
  "find13 h db query =
     (case readFile h (filename db) of
        None \<Rightarrow> Inl IOError
      | Some rawData \<Rightarrow>
          (case decode_rows h (split_on is_newline rawData) [] of
             Inl err \<Rightarrow> Inl err
           | Inr entries \<Rightarrow> filter_entries h db query entries))"

text \<open>
  The tail of \<^verbatim>\<open>find(query, options)\<close> of exercise 14: \<^verbatim>\<open>if (options) { if (options.sort)
  ...; if (options.projection) ... }\<close>. An options object and its two members are objects,
  hence truthy whenever they are there.
\<close>

definition apply_options :: "host \<Rightarrow> 'f findOptions option \<Rightarrow> entry list \<Rightarrow> entry list" where
  "apply_options h options entries =
     (case options of
        None \<Rightarrow> entries
      | Some opts \<Rightarrow>
          (let sorted_entries =
                 (case sort_option opts of
                    None \<Rightarrow> entries
                  | Some sortOptions \<Rightarrow> Array_sort h (\<lambda>a b. sort' h a b sortOptions) entries)
           in (case projection_option opts of
                 None \<Rightarrow> sorted_entries
               | Some projectionOptions \<Rightarrow>
                   map (\<lambda>e. project e projectionOptions) sorted_entries)))"

definition find14 :: "host \<Rightarrow> database \<Rightarrow> filter_obj \<Rightarrow> 'f findOptions option \<Rightarrow> error + entry list" where
  "find14 h db query options =
     (case readFile h (filename db) of
        None \<Rightarrow> Inl IOError
      | Some rawData \<Rightarrow>
          (case decode_rows h (split_on is_newline rawData) [] of
             Inl err \<Rightarrow> Inl err
           | Inr entries \<Rightarrow>
               (case filter_entries h db query entries of
                  Inl err \<Rightarrow> Inl err
                | Inr kept \<Rightarrow> Inr (apply_options h options kept))))"

section \<open>Whole-word occurrences\<close>

text \<open>
  What the specification calls a whole-word match of a word \<open>w\<close> in a string: an
  occurrence of \<open>w\<close>, letters compared without regard to case (\<open>canonicalize\<close> is
  the upper case of a code unit below 256), with a word boundary before it and a word
  boundary after it. A word boundary lies between a word character (one of a to z, A to
  Z, a digit or the underscore) and a character that is none, the two ends of
  the string counting as none. This is also what a regular expression does with
  \<^verbatim>\<open>\b\<close>, a literal character and the flag \<open>i\<close>; the definitions are written over
  atoms so that they cover the dot as well, which matches any character but a line
  terminator.
\<close>

definition is_word_char :: "char \<Rightarrow> bool" where
  "is_word_char c =
     (let n = (of_char c :: nat)
      in (48 \<le> n \<and> n \<le> 57) \<or> (65 \<le> n \<and> n \<le> 90) \<or> (97 \<le> n \<and> n \<le> 122) \<or> n = 95)"

definition canonicalize :: "char \<Rightarrow> nat" where
  "canonicalize c =
     (let n = (of_char c :: nat)
      in if 97 \<le> n \<and> n \<le> 122 then n - 32
         else if 224 \<le> n \<and> n \<le> 254 \<and> n \<noteq> 247 then n - 32
         else if n = 255 then 376
         else if n = 181 then 924
         else n)"

datatype atom = Literal char | AnyChar

fun atom_matches :: "atom \<Rightarrow> char \<Rightarrow> bool" where
  "atom_matches (Literal p) c = (canonicalize p = canonicalize c)"
| "atom_matches AnyChar c = ((of_char c :: nat) \<noteq> 10 \<and> (of_char c :: nat) \<noteq> 13)"

fun word_char_at :: "char option \<Rightarrow> bool" where
  "word_char_at None = False"
| "word_char_at (Some c) = is_word_char c"

definition boundary :: "char option \<Rightarrow> string \<Rightarrow> bool" where
  "boundary prev rest =
     (word_char_at prev \<noteq> word_char_at (case rest of [] \<Rightarrow> None | c # cs \<Rightarrow> Some c))"

text \<open>
  \<open>match_here\<close>: the atoms match a prefix of \<open>rest\<close>, and a boundary follows it;
  \<open>prev\<close> is the character before \<open>rest\<close>. \<open>search\<close>: some position of the
  string has a boundary and a match starting there.
\<close>

fun match_here :: "atom list \<Rightarrow> char option \<Rightarrow> string \<Rightarrow> bool" where
  "match_here [] prev rest = boundary prev rest"
| "match_here (a # as) prev [] = False"
| "match_here (a # as) prev (c # cs) = (atom_matches a c \<and> match_here as (Some c) cs)"

fun search :: "atom list \<Rightarrow> char option \<Rightarrow> string \<Rightarrow> bool" where
  "search as prev [] = (boundary prev [] \<and> match_here as prev [])"
| "search as prev (c # cs) =
     ((boundary prev (c # cs) \<and> match_here as prev (c # cs)) \<or> search as (Some c) cs)"

definition contains_whole_word :: "string \<Rightarrow> string \<Rightarrow> bool" where
  "contains_whole_word w s = search (map Literal w) None s"

text \<open>
  The characters that regular-expression syntax gives a meaning to. A word is literal
  when it is not empty and none of its characters is one of these.
\<close>

definition is_syntax_char :: "char \<Rightarrow> bool" where
  "is_syntax_char c =
     (c \<in> set [CHR ''^'', CHR ''$'', CHR 0x5C, CHR ''.'', CHR ''*'', CHR ''+'', CHR ''?'',
               CHR ''('', CHR '')'', CHR ''['', CHR '']'', CHR ''{'', CHR ''}'', CHR ''|''])"

definition literal_char :: "char \<Rightarrow> bool" where
  "literal_char c = (\<not> is_syntax_char c)"

definition literal_word :: "string \<Rightarrow> bool" where
  "literal_word w = (w \<noteq> [] \<and> list_all literal_char w)"

text \<open>
  The part of the host's regular expressions that the text filter is specified by: for
  a literal word, the expression \<^verbatim>\<open>\bword\b\<close> with the flag \<open>i\<close> is accepted and
  tests for a whole-word occurrence.
\<close>

definition RegExp_whole_words :: "host \<Rightarrow> bool" where
  "RegExp_whole_words h =
     (\<forall>w. literal_word w \<longrightarrow> RegExp h (word_pattern w) ''i'' = Some (contains_whole_word w))"

section \<open>An example host\<close>

text \<open>
  A host for the concrete instances below. Each service agrees with the real one on
  the inputs the instances give it: \<open>example_JSON_parse\<close> knows the payloads of the
  example log and rejects \<^verbatim>\<open>{oops\<close>; \<open>example_RegExp\<close> accepts the expressions
  \<^verbatim>\<open>\b...\b\<close> whose body is made of literal characters and dots, and rejects
  \<^verbatim>\<open>\b(\b\<close>, which has an unterminated group; \<open>example_StringToNumber\<close> is right for
  strings that are neither blank nor numeric literals; \<open>example_Array_sort\<close> is a stable insertion
  sort. What they answer on other inputs is not used.
\<close>

definition example_log :: string where
  \<open>example_log =
     ''E{"name":"Ann","age":30}'' @ [CHR 0x0A] @
     ''X{"name":"Bob","age":25}'' @ [CHR 0x0A] @
     ''E{"name":"Cid","age":25}''\<close>

definition broken_log :: string where
  \<open>broken_log =
     ''E{"name":"Ann","age":30}'' @ [CHR 0x0A] @
     ''E{oops'' @ [CHR 0x0A] @
     ''E{"name":"Cid","age":25}''\<close>

definition Ann :: entry where
  "Ann = [(''name'', JString ''Ann''), (''age'', JNumber (Finite 30))]"

definition Bob :: entry where
  "Bob = [(''name'', JString ''Bob''), (''age'', JNumber (Finite 25))]"

definition Cid :: entry where
  "Cid = [(''name'', JString ''Cid''), (''age'', JNumber (Finite 25))]"

definition example_JSON_parse :: "string \<Rightarrow> entry option" where
  \<open>example_JSON_parse s =
     (if s = ''{"name":"Ann","age":30}'' then Some Ann
      else if s = ''{"name":"Bob","age":25}'' then Some Bob
      else if s = ''{"name":"Cid","age":25}'' then Some Cid
      else None)\<close>

definition example_readFile :: "string \<Rightarrow> string option" where
  "example_readFile name =
     (if name = ''people.db'' then Some example_log
      else if name = ''broken.db'' then Some broken_log
      else None)"

fun compile_atoms :: "string \<Rightarrow> atom list option" where
  "compile_atoms [] = Some []"
| "compile_atoms (c # cs) =
     (if c = CHR ''.'' then map_option (\<lambda>as. AnyChar # as) (compile_atoms cs)
      else if literal_char c then map_option (\<lambda>as. Literal c # as) (compile_atoms cs)
      else None)"

definition strip_boundaries :: "string \<Rightarrow> string option" where
  "strip_boundaries pattern =
     (if 4 \<le> length pattern \<and> take 2 pattern = [CHR 0x5C, CHR ''b'']
         \<and> drop (length pattern - 2) pattern = [CHR 0x5C, CHR ''b'']
      then Some (take (length pattern - 4) (drop 2 pattern))
      else None)"

definition example_RegExp :: "string \<Rightarrow> string \<Rightarrow> (string \<Rightarrow> bool) option" where
  "example_RegExp pattern flags =
     (if flags = ''i''
      then (case strip_boundaries pattern of
              None \<Rightarrow> None
            | Some body \<Rightarrow>
                (case compile_atoms body of
                   None \<Rightarrow> None
                 | Some as \<Rightarrow> Some (search as None)))
      else None)"

definition example_StringToNumber :: "string \<Rightarrow> number" where
  "example_StringToNumber s = NaN"

text \<open>
  The text of a native function, as V8 prints it; \<^verbatim>\<open>__proto__\<close> is an object and
  converts like one.
\<close>

definition example_InheritedToString :: "string \<Rightarrow> string" where
  "example_InheritedToString name =
     (if name = ''__proto__'' then ''[object Object]''
      else if name = ''constructor'' then ''function Object() { [native code] }''
      else ''function '' @ name @ ''() { [native code] }'')"

fun insert_by :: "(entry \<Rightarrow> entry \<Rightarrow> int) \<Rightarrow> entry \<Rightarrow> entry list \<Rightarrow> entry list" where
  "insert_by cmp x [] = [x]"
| "insert_by cmp x (y # ys) = (if cmp x y < 0 then x # y # ys else y # insert_by cmp x ys)"

definition example_Array_sort :: "(entry \<Rightarrow> entry \<Rightarrow> int) \<Rightarrow> entry list \<Rightarrow> entry list" where
  "example_Array_sort cmp xs = foldl (\<lambda>acc x. insert_by cmp x acc) [] xs"

definition example_host :: host where
  "example_host =
     \<lparr> readFile = example_readFile,
       JSON_parse = example_JSON_parse,
       RegExp = example_RegExp,
       StringToNumber = example_StringToNumber,
       InheritedToString = example_InheritedToString,
       Array_sort = example_Array_sort \<rparr>"

definition people :: database where
  "people = \<lparr> filename = ''people.db'', fullTextSearchFieldNames = [''name''] \<rparr>"

definition broken :: database where
  "broken = \<lparr> filename = ''broken.db'', fullTextSearchFieldNames = [''name''] \<rparr>"

section \<open>Notions of the specification\<close>

text \<open>A condition with no operator, and a filter with no property, to build on.\<close>

definition no_condition :: condition where
  "no_condition =
     \<lparr> dollar_eq = JUndefined, dollar_gt = JUndefined, dollar_lt = JUndefined,
       dollar_in = None \<rparr>"

definition empty_filter :: filter_obj where
  "empty_filter =
     \<lparr> dollar_and = Missing, dollar_or = Missing, dollar_text = None, field_props = [] \<rparr>"

text \<open>
  The visible lines of a log are those that start with the existence marker; the
  payload of a visible line is the line without the marker. A payload decodes when the
  host's parser accepts it.
\<close>

definition visible_payloads :: "string \<Rightarrow> string list" where
  "visible_payloads rawData = map (drop 1) (filter isExist (split_on is_newline rawData))"

definition decodes :: "host \<Rightarrow> string \<Rightarrow> bool" where
  "decodes h payload = (JSON_parse h payload \<noteq> None)"

text \<open>
  The text filter as the specification words it: some word of the query occurs as a
  whole word in some searchable field whose value is a string.
\<close>

definition field_contains :: "entry \<Rightarrow> string \<Rightarrow> string \<Rightarrow> bool" where
  "field_contains e w field =
     (case get_field e field of JString s \<Rightarrow> contains_whole_word w s | _ \<Rightarrow> False)"

definition text_match_spec :: "string list \<Rightarrow> entry \<Rightarrow> string \<Rightarrow> bool" where
  "text_match_spec names e text =
     list_ex (\<lambda>w. list_ex (field_contains e w) names) (split_on is_whitespace text)"

text \<open>
  The comparator as the specification words it: the first field whose two values
  differ decides, by \<open>>\<close> alone. \<open>loose_equals\<close> is \<^verbatim>\<open>x == y\<close>, so that its negation is
  the \<^verbatim>\<open>!=\<close> of the specification.
\<close>

fun loose_equals :: "host \<Rightarrow> jsval \<Rightarrow> jsval \<Rightarrow> bool" where
  "loose_equals h JUndefined y = (y = JUndefined \<or> y = JNull)"
| "loose_equals h JNull y = (y = JUndefined \<or> y = JNull)"
| "loose_equals h x JUndefined = False"
| "loose_equals h x JNull = False"
| "loose_equals h (JBoolean b) (JBoolean c) = (b = c)"
| "loose_equals h (JString s) (JString t) = (s = t)"
| "loose_equals h (JInherited n) (JInherited m) = (n = m)"
| "loose_equals h (JInherited n) (JString t) = (InheritedToString h n = t)"
| "loose_equals h (JString s) (JInherited m) = (s = InheritedToString h m)"
| "loose_equals h x y = strict_equals (JNumber (to_number h x)) (JNumber (to_number h y))"

fun compare_spec :: "host \<Rightarrow> entry \<Rightarrow> entry \<Rightarrow> sortOptions \<Rightarrow> int" where
  "compare_spec h a b [] = 0"
| "compare_spec h a b ((field, direction) # rest) =
     (if \<not> loose_equals h (get_field a field) (get_field b field)
      then (if js_greater h (get_field a field) (get_field b field) then direction
            else - direction)
      else compare_spec h a b rest)"

text \<open>
  Two values that \<open><\<close> orders totally: two numbers other than \<open>NaN\<close>, two strings, or
  two booleans.
\<close>

fun comparable :: "jsval \<Rightarrow> jsval \<Rightarrow> bool" where
  "comparable (JNumber x) (JNumber y) = (x \<noteq> NaN \<and> y \<noteq> NaN)"
| "comparable (JString s) (JString t) = True"
| "comparable (JBoolean b) (JBoolean c) = True"
| "comparable x y = False"

text \<open>The first field of the options that \<open>>\<close> or \<open><\<close> orders the two records by.\<close>

fun first_ordered :: "host \<Rightarrow> entry \<Rightarrow> entry \<Rightarrow> sortOptions \<Rightarrow> (string \<times> int) option" where
  "first_ordered h a b [] = None"
| "first_ordered h a b ((field, direction) # rest) =
     (if js_greater h (get_field a field) (get_field b field)
         \<or> js_less h (get_field a field) (get_field b field)
      then Some (field, direction)
      else first_ordered h a b rest)"

text \<open>Instances of filters and of a line for the examples.\<close>

definition age_below_30 :: conditionalFilter where
  "age_below_30 = [(''age'', Some (no_condition\<lparr>dollar_lt := JNumber (Finite 30)\<rparr>))]"

definition Ann_line :: string where
  \<open>Ann_line = ''E{"name":"Ann","age":30}''\<close>

definition Bob_line :: string where
  \<open>Bob_line = ''X{"name":"Bob","age":25}''\<close>

definition age_in_nothing :: conditionalFilter where
  "age_in_nothing = [(''age'', Some (no_condition\<lparr>dollar_in := Some []\<rparr>))]"

definition age_then_name :: sortOptions where
  "age_then_name = [(''age'', 1), (''name'', - 1)]"

text \<open>Records for the examples: one without an age, and three to search for a word.\<close>

definition Abe :: entry where
  "Abe = [(''name'', JString ''Abe'')]"

definition Cot :: entry where
  "Cot = [(''name'', JString ''cot'')]"

definition cat_story :: entry where
  "cat_story = [(''name'', JString ''The Cat sat''), (''age'', JNumber (Finite 3))]"

definition concat_note :: entry where
  "concat_note = [(''name'', JString ''concatenate'')]"

definition Ann_in_Rome :: entry where
  "Ann_in_Rome = Ann @ [(''city'', JString ''Rome'')]"

text \<open>Options that sort by the name, ascending.\<close>

definition by_name :: "int findOptions" where
  "by_name = \<lparr> sort_option = Some [(''name'', 1)], projection_option = None \<rparr>"

text \<open>
  The projection as the specification words it: the fields whose flag is set, a flag
  being set when it is truthy (its type has the value 1, and \<open>undefined\<close> for a key
  that is there without a flag).
\<close>

definition project_spec :: "entry \<Rightarrow> jsval projectionOptions \<Rightarrow> entry" where
  "project_spec e projectionOptions =
     map (\<lambda>p. (fst p, get_field e (fst p))) (filter (\<lambda>p. truthy (snd p)) projectionOptions)"

definition name_only :: "jsval projectionOptions" where
  "name_only = [(''name'', JNumber (Finite 1))]"

definition name_and_unset_age :: "jsval projectionOptions" where
  "name_and_unset_age = [(''name'', JNumber (Finite 1)), (''age'', JUndefined)]"

text \<open>The character before the rest of a string, of which \<open>pre\<close> has been read.\<close>

definition last_before :: "char option \<Rightarrow> string \<Rightarrow> char option" where
  "last_before prev pre = (if pre = [] then prev else Some (last pre))"

text \<open>Filters that have a field named \<^verbatim>\<open>hasOwnProperty\<close>.\<close>

definition shadowing_eq_zero :: conditionalFilter where
  "shadowing_eq_zero =
     [(''hasOwnProperty'', Some (no_condition\<lparr>dollar_eq := JNumber (Finite 0)\<rparr>))]"

definition shadowing_and :: filter_obj where
  "shadowing_and =
     empty_filter\<lparr>dollar_and := Present [], field_props := [(''hasOwnProperty'', Some no_condition)]\<rparr>"

text \<open>
  The choice of the evaluator, once the two tests have returned: \<open>filter_entries\<close>
  fails with a \<^verbatim>\<open>TypeError\<close> when \<^verbatim>\<open>hasOwnProperty\<close> is shadowed, and otherwise
  filters with the evaluator that the keys select.
\<close>

definition chosen_evaluator :: "host \<Rightarrow> database \<Rightarrow> filter_obj \<Rightarrow> entry \<Rightarrow> error + bool" where
  "chosen_evaluator h db q e =
     (if dollar_and q \<noteq> Missing \<or> dollar_or q \<noteq> Missing then filterByMultiFilter h e q
      else if dollar_text q \<noteq> None then filterByText h db e q
      else filterByConditionOrArray h e (field_props q))"

section \<open>The decoding loop and the filter of an array\<close>

lemma decode_rows_Inr:
  "decode_rows h rows acc = Inr es \<longleftrightarrow>
     (\<exists>ds. map (JSON_parse h) (map (drop 1) (filter isExist rows)) = map Some ds \<and> es = acc @ ds)"
proof (induction rows arbitrary: acc)
  case Nil
  then show ?case by auto
next
  case (Cons row rows)
  show ?case
  proof (cases "isExist row")
    case False
    then show ?thesis using Cons.IH [of acc] by simp
  next
    case True
    show ?thesis
    proof (cases "JSON_parse h (drop 1 row)")
      case None
      then show ?thesis using True by auto
    next
      case (Some e)
      have "decode_rows h (row # rows) acc = decode_rows h rows (acc @ [e])"
        using True Some by simp
      moreover have "(\<exists>ds. map (JSON_parse h) (map (drop 1) (filter isExist (row # rows))) = map Some ds \<and> es = acc @ ds)
          \<longleftrightarrow> (\<exists>ds'. map (JSON_parse h) (map (drop 1) (filter isExist rows)) = map Some ds' \<and> es = (acc @ [e]) @ ds')"
      proof
        assume "\<exists>ds. map (JSON_parse h) (map (drop 1) (filter isExist (row # rows))) = map Some ds \<and> es = acc @ ds"
        then obtain ds where ds: "map (JSON_parse h) (map (drop 1) (filter isExist (row # rows))) = map Some ds" "es = acc @ ds"
          by blast
        from ds(1) True Some obtain ds' where "ds = e # ds'" "map (JSON_parse h) (map (drop 1) (filter isExist rows)) = map Some ds'"
          by (cases ds) auto
        with ds(2) show "\<exists>ds'. map (JSON_parse h) (map (drop 1) (filter isExist rows)) = map Some ds' \<and> es = (acc @ [e]) @ ds'"
          by auto
      next
        assume "\<exists>ds'. map (JSON_parse h) (map (drop 1) (filter isExist rows)) = map Some ds' \<and> es = (acc @ [e]) @ ds'"
        then obtain ds' where "map (JSON_parse h) (map (drop 1) (filter isExist rows)) = map Some ds'" "es = (acc @ [e]) @ ds'"
          by blast
        then have "map (JSON_parse h) (map (drop 1) (filter isExist (row # rows))) = map Some (e # ds') \<and> es = acc @ (e # ds')"
          using True Some by simp
        then show "\<exists>ds. map (JSON_parse h) (map (drop 1) (filter isExist (row # rows))) = map Some ds \<and> es = acc @ ds"
          by blast
      qed
      ultimately show ?thesis using Cons.IH [of "acc @ [e]"] by simp
    qed
  qed
qed

lemma decode_rows_Inl:
  "decode_rows h rows acc = Inl err \<longleftrightarrow>
     (err = SyntaxError_JSON \<and> \<not> list_all (decodes h) (map (drop 1) (filter isExist rows)))"
  by (induction rows arbitrary: acc) (auto simp: decodes_def split: option.splits)

lemma decode_rows_skip:
  "\<not> isExist row \<Longrightarrow> decode_rows h (rows1 @ row # rows2) acc = decode_rows h (rows1 @ rows2) acc"
  by (induction rows1 arbitrary: acc) (auto split: option.splits)

lemma array_filter_Inr:
  "array_filter f xs = Inr ys \<Longrightarrow> ys = filter (\<lambda>x. f x = Inr True) xs"
  by (induction xs arbitrary: ys) (auto split: sum.splits if_splits)

lemma array_filter_subseq:
  "array_filter f xs = Inr ys \<Longrightarrow> subseq ys xs"
  using array_filter_Inr [of f xs ys] by simp

lemma array_filter_Inl:
  "array_filter f xs = Inl err \<Longrightarrow> \<exists>x \<in> set xs. f x = Inl err"
  by (induction xs) (auto split: sum.splits)

lemma array_filter_total:
  "\<forall>x \<in> set xs. \<exists>b. f x = Inr b \<Longrightarrow> array_filter f xs = Inr (filter (\<lambda>x. f x = Inr True) xs)"
  by (induction xs) (fastforce split: sum.splits)+

text \<open>No filter raises the error of the decoder.\<close>

text \<open>No filter raises the error of the decoder.\<close>

lemma condition_loop_not_JSON: "condition_loop h e sh flt r \<noteq> Inl SyntaxError_JSON"
  by (induction h e sh flt r rule: condition_loop.induct) (auto split: option.splits)

lemma reduce_and_not_JSON: "reduce_and h e cs r \<noteq> Inl SyntaxError_JSON"
  by (induction cs arbitrary: r)
     (auto simp: filterByConditionOrArray_def condition_loop_not_JSON split: sum.splits)

lemma reduce_or_not_JSON: "reduce_or h e cs r \<noteq> Inl SyntaxError_JSON"
  by (induction cs arbitrary: r)
     (auto simp: filterByConditionOrArray_def condition_loop_not_JSON split: sum.splits)

lemma text_words_not_JSON: "text_words h names e ws r \<noteq> Inl SyntaxError_JSON"
  by (induction ws arbitrary: r) (auto split: option.splits)

lemma filterByMultiFilter_not_JSON: "filterByMultiFilter h e q \<noteq> Inl SyntaxError_JSON"
  by (auto simp: filterByMultiFilter_def reduce_and_not_JSON reduce_or_not_JSON
           split: property.splits)

lemma filterByText_not_JSON: "filterByText h db e q \<noteq> Inl SyntaxError_JSON"
  by (auto simp: filterByText_def text_words_not_JSON split: option.splits)

lemma filterByConditionOrArray_not_JSON:
  "filterByConditionOrArray h e flt \<noteq> Inl SyntaxError_JSON"
  by (simp add: filterByConditionOrArray_def condition_loop_not_JSON)

lemma filter_entries_cases:
  "filter_entries h db q es =
     (if hasOwnProperty_shadowed (field_props q) then Inl TypeError
      else array_filter (chosen_evaluator h db q) es)"
proof (cases "hasOwnProperty_shadowed (field_props q)")
  case True
  then show ?thesis by (simp add: filter_entries_def isMultiFilter_def)
next
  case False
  have "chosen_evaluator h db q =
      (if dollar_and q \<noteq> Missing \<or> dollar_or q \<noteq> Missing then (\<lambda>e. filterByMultiFilter h e q)
       else if dollar_text q \<noteq> None then (\<lambda>e. filterByText h db e q)
       else (\<lambda>e. filterByConditionOrArray h e (field_props q)))"
    by (auto simp: chosen_evaluator_def fun_eq_iff)
  then show ?thesis
    using False by (simp add: filter_entries_def isMultiFilter_def isTextFilter_def)
qed

lemma chosen_evaluator_not_JSON: "chosen_evaluator h db q e \<noteq> Inl SyntaxError_JSON"
  by (simp add: chosen_evaluator_def filterByMultiFilter_not_JSON filterByText_not_JSON
        filterByConditionOrArray_not_JSON)

lemma filter_entries_not_JSON: "filter_entries h db q es \<noteq> Inl SyntaxError_JSON"
proof
  assume "filter_entries h db q es = Inl SyntaxError_JSON"
  then have "array_filter (chosen_evaluator h db q) es = Inl SyntaxError_JSON"
    by (simp add: filter_entries_cases split: if_splits)
  then obtain x where "chosen_evaluator h db q x = Inl SyntaxError_JSON"
    using array_filter_Inl by blast
  then show False using chosen_evaluator_not_JSON by blast
qed

lemma filter_entries_subseq: "filter_entries h db q es = Inr rs \<Longrightarrow> subseq rs es"
  by (auto simp: filter_entries_cases dest: array_filter_subseq split: if_splits)

lemma find13_unfold:
  assumes "readFile h (filename db) = Some rawData"
    and "decode_rows h (split_on is_newline rawData) [] = Inr entries"
  shows "find13 h db q = filter_entries h db q entries"
  using assms by (simp add: find13_def)

lemma find14_unfold:
  assumes "readFile h (filename db) = Some rawData"
    and "decode_rows h (split_on is_newline rawData) [] = Inr entries"
  shows "find14 h db q opts = map_sum id (apply_options h opts) (filter_entries h db q entries)"
  using assms by (simp add: find14_def split: sum.splits)

section \<open>The conditional filter\<close>

lemma single_field_not_shadowed:
  "f \<noteq> ''hasOwnProperty'' \<Longrightarrow> \<not> hasOwnProperty_shadowed [(f, c)]"
  by (simp add: hasOwnProperty_shadowed_def)

text \<open>
  C1, as amended. A conditional filter with one clause on one field \<open>f\<close> that is not
  named \<^verbatim>\<open>hasOwnProperty\<close>: with \<open>$eq\<close>, the record matches exactly when its value
  of \<open>f\<close> is strictly equal to the operand, unless the operand is falsy, and then the
  clause is skipped and every record matches. The operands of \<open>$gt\<close>, \<open>$lt\<close> and
  \<open>$in\<close> are gated in the same way; the operand of \<open>$in\<close> is an array, which is
  truthy, or absent. In a condition with several operators, a falsy operand of \<open>$eq\<close>,
  \<open>$gt\<close> or \<open>$lt\<close> counts as an absent one.
\<close>

theorem C1_single_clause:
  assumes "f \<noteq> ''hasOwnProperty''"
  shows "filterByConditionOrArray h R [(f, Some (no_condition\<lparr>dollar_eq := v\<rparr>))]
     = Inr (if truthy v then strict_equals (get_field R f) v else True)
   \<and> filterByConditionOrArray h R [(f, Some (no_condition\<lparr>dollar_gt := v\<rparr>))]
     = Inr (if truthy v then js_greater h (get_field R f) v else True)
   \<and> filterByConditionOrArray h R [(f, Some (no_condition\<lparr>dollar_lt := v\<rparr>))]
     = Inr (if truthy v then js_less h (get_field R f) v else True)
   \<and> filterByConditionOrArray h R [(f, Some (no_condition\<lparr>dollar_in := xs\<rparr>))]
     = Inr (case xs of None \<Rightarrow> True | Some vs \<Rightarrow> array_includes vs (get_field R f))
   \<and> (\<not> truthy v \<longrightarrow>
        apply_condition h R f (c\<lparr>dollar_eq := v\<rparr>) r
          = apply_condition h R f (c\<lparr>dollar_eq := JUndefined\<rparr>) r
      \<and> apply_condition h R f (c\<lparr>dollar_gt := v\<rparr>) r
          = apply_condition h R f (c\<lparr>dollar_gt := JUndefined\<rparr>) r
      \<and> apply_condition h R f (c\<lparr>dollar_lt := v\<rparr>) r
          = apply_condition h R f (c\<lparr>dollar_lt := JUndefined\<rparr>) r)"
  using assms
  by (simp add: filterByConditionOrArray_def single_field_not_shadowed apply_condition_def
        no_condition_def split: option.split)

lemma Ann_toString: "get_field Ann ''toString'' = JInherited ''toString''"
  by (simp add: get_field_def Ann_def Object_prototype_names_def)

theorem C1_single_clause_witness:
  "''age'' \<noteq> ''hasOwnProperty'' \<and> ''name'' \<noteq> ''hasOwnProperty''
   \<and> ''toString'' \<noteq> ''hasOwnProperty''
   \<and> filterByConditionOrArray example_host Ann
       [(''age'', Some (no_condition\<lparr>dollar_eq := JNumber (Finite 30)\<rparr>))] = Inr True
   \<and> filterByConditionOrArray example_host Ann
       [(''age'', Some (no_condition\<lparr>dollar_eq := JNumber (Finite 25)\<rparr>))] = Inr False
   \<and> \<not> truthy (JNumber (Finite 0))
   \<and> filterByConditionOrArray example_host Ann
       [(''age'', Some (no_condition\<lparr>dollar_eq := JNumber (Finite 0)\<rparr>))] = Inr True
   \<and> \<not> truthy (JString [])
   \<and> filterByConditionOrArray example_host Ann
       [(''name'', Some (no_condition\<lparr>dollar_eq := JString []\<rparr>))] = Inr True
   \<and> filterByConditionOrArray example_host Ann
       [(''age'', Some (no_condition\<lparr>dollar_lt := JNumber (Finite 0)\<rparr>))] = Inr True
   \<and> filterByConditionOrArray example_host Ann
       [(''age'', Some (no_condition\<lparr>dollar_lt := JNumber (Finite 30)\<rparr>))] = Inr False
   \<and> filterByConditionOrArray example_host Ann
       [(''toString'', Some (no_condition\<lparr>dollar_lt := JString ''g''\<rparr>))] = Inr True
   \<and> apply_condition example_host Ann ''age''
        (no_condition\<lparr>dollar_lt := JNumber (Finite 40), dollar_eq := JNumber (Finite 0)\<rparr>) True"
proof -
  have a: "''age'' \<noteq> ''hasOwnProperty''" and n: "''name'' \<noteq> ''hasOwnProperty''"
    and t: "''toString'' \<noteq> ''hasOwnProperty''"
    by simp_all
  have age: "get_field Ann ''age'' = JNumber (Finite 30)"
    and name: "get_field Ann ''name'' = JString ''Ann''"
    by (simp_all add: get_field_def Ann_def)
  have l: "js_less example_host (JInherited ''toString'') (JString ''g'')"
    by (simp add: js_less_def example_host_def example_InheritedToString_def)
  show ?thesis
    using C1_single_clause [OF a, of example_host Ann "JNumber (Finite 30)"]
        C1_single_clause [OF a, of example_host Ann "JNumber (Finite 25)"]
        C1_single_clause [OF a, of example_host Ann "JNumber (Finite 0)" _
                             "no_condition\<lparr>dollar_lt := JNumber (Finite 40)\<rparr>" True]
        C1_single_clause [OF n, of example_host Ann "JString []"]
        C1_single_clause [OF t, of example_host Ann "JString ''g''"]
        age name Ann_toString l
    by (simp add: js_less_def js_greater_def apply_condition_def no_condition_def)
qed

text \<open>
  C1 as stated fails for the field named \<^verbatim>\<open>hasOwnProperty\<close>: the operand 0 is falsy,
  so the filter should match every record, but the loop calls
  \<^verbatim>\<open>filter.hasOwnProperty(field)\<close>, which is now the condition and not a function, and
  the evaluation throws.
\<close>

theorem C1_counterexample:
  "\<not> truthy (JNumber (Finite 0))
   \<and> filterByConditionOrArray example_host Ann shadowing_eq_zero = Inl TypeError"
  by (simp add: filterByConditionOrArray_def shadowing_eq_zero_def hasOwnProperty_shadowed_def)

section \<open>The composite filter\<close>

text \<open>
  C6. A filter whose \<open>$and\<close> is the empty array matches every record, and a filter
  whose only sequence is an empty \<open>$or\<close> matches no record: the first fold starts from
  true and the second from false.
\<close>

theorem C6_empty_sequences:
  "filterByMultiFilter h R (q\<lparr>dollar_and := Present []\<rparr>) = Inr True
   \<and> filterByMultiFilter h R (q\<lparr>dollar_and := Missing, dollar_or := Present []\<rparr>) = Inr False
   \<and> filterByMultiFilter h R (q\<lparr>dollar_and := Undefined, dollar_or := Present []\<rparr>) = Inr False"
  by (simp add: filterByMultiFilter_def)

theorem C6_empty_sequences_witness:
  "filterByMultiFilter example_host Ann (empty_filter\<lparr>dollar_and := Present []\<rparr>) = Inr True
   \<and> filterByMultiFilter example_host Ann
        (empty_filter\<lparr>dollar_and := Missing, dollar_or := Present []\<rparr>) = Inr False"
  using C6_empty_sequences [of example_host Ann empty_filter] by simp

text \<open>
  C10. A filter that has both \<open>$and\<close> and \<open>$or\<close>, each with an array: only the \<open>$and\<close>
  array is evaluated. The result is that of the filter with the \<open>$and\<close> array alone,
  whatever the \<open>$or\<close> array holds, for one record and for the whole query.
\<close>

theorem C10_and_shadows_or:
  assumes "dollar_and q = Present cs" and "dollar_or q = Present ds"
  shows "filterByMultiFilter h R q = filterByMultiFilter h R (empty_filter\<lparr>dollar_and := Present cs\<rparr>)
     \<and> filterByMultiFilter h R q = filterByMultiFilter h R (q\<lparr>dollar_or := Present ds'\<rparr>)
     \<and> filterByMultiFilter h R q = reduce_and h R cs True
     \<and> find13 h db q = find13 h db (q\<lparr>dollar_or := other\<rparr>)
     \<and> find14 h db q opts = find14 h db (q\<lparr>dollar_or := other\<rparr>) opts"
proof -
  have m: "chosen_evaluator h db q = chosen_evaluator h db (q\<lparr>dollar_or := other\<rparr>)"
    using assms by (simp add: chosen_evaluator_def filterByMultiFilter_def fun_eq_iff)
  have f: "\<And>es. filter_entries h db q es = filter_entries h db (q\<lparr>dollar_or := other\<rparr>) es"
    using m by (simp add: filter_entries_cases)
  show ?thesis
    using assms
    by (simp add: filterByMultiFilter_def find13_def find14_def f
             cong: option.case_cong sum.case_cong)
qed

lemma example_rows:
  "decode_rows example_host (split_on is_newline example_log) [] = Inr [Ann, Cid]"
  by (simp add: example_log_def is_newline_def isExist_def ExistenceCharacter_def
        example_host_def example_JSON_parse_def)

lemma example_read: "readFile example_host (filename people) = Some example_log"
  by (simp add: example_host_def people_def example_readFile_def)

lemma age_below_30_Ann: "filterByConditionOrArray example_host Ann age_below_30 = Inr False"
  by (simp add: filterByConditionOrArray_def age_below_30_def apply_condition_def
        no_condition_def get_field_def Ann_def hasOwnProperty_shadowed_def js_less_def)

lemma age_below_30_Cid: "filterByConditionOrArray example_host Cid age_below_30 = Inr True"
  by (simp add: filterByConditionOrArray_def age_below_30_def apply_condition_def
        no_condition_def get_field_def Cid_def hasOwnProperty_shadowed_def js_less_def)

lemma empty_cond_any: "filterByConditionOrArray h e [] = Inr True"
  by (simp add: filterByConditionOrArray_def)

lemma example_find13:
  "\<not> hasOwnProperty_shadowed (field_props q)
     \<Longrightarrow> find13 example_host people q = array_filter (chosen_evaluator example_host people q) [Ann, Cid]"
  using find13_unfold [OF example_read example_rows, of q] by (simp add: filter_entries_cases)

theorem C10_and_shadows_or_witness:
  "dollar_and (empty_filter\<lparr>dollar_and := Present [age_below_30], dollar_or := Present [[]]\<rparr>)
      = Present [age_below_30]
   \<and> dollar_or (empty_filter\<lparr>dollar_and := Present [age_below_30], dollar_or := Present [[]]\<rparr>)
      = Present [[]]
   \<and> find13 example_host people
        (empty_filter\<lparr>dollar_and := Present [age_below_30], dollar_or := Present [[]]\<rparr>) = Inr [Cid]
   \<and> find13 example_host people (empty_filter\<lparr>dollar_and := Present [age_below_30]\<rparr>) = Inr [Cid]
   \<and> find13 example_host people (empty_filter\<lparr>dollar_or := Present [[]]\<rparr>) = Inr [Ann, Cid]"
proof -
  let ?q = "empty_filter\<lparr>dollar_and := Present [age_below_30], dollar_or := Present [[]]\<rparr>"
  have a: "dollar_and ?q = Present [age_below_30]" and b: "dollar_or ?q = Present [[]]"
    by simp_all
  have 1: "find13 example_host people (empty_filter\<lparr>dollar_and := Present [age_below_30]\<rparr>) = Inr [Cid]"
    using example_find13 [of "empty_filter\<lparr>dollar_and := Present [age_below_30]\<rparr>"]
    by (simp add: chosen_evaluator_def filterByMultiFilter_def empty_filter_def
          hasOwnProperty_shadowed_def age_below_30_Ann age_below_30_Cid)
  have 2: "find13 example_host people (empty_filter\<lparr>dollar_or := Present [[]]\<rparr>) = Inr [Ann, Cid]"
    using example_find13 [of "empty_filter\<lparr>dollar_or := Present [[]]\<rparr>"]
    by (simp add: chosen_evaluator_def filterByMultiFilter_def empty_filter_def
          hasOwnProperty_shadowed_def empty_cond_any)
  have "find13 example_host people ?q = find13 example_host people (?q\<lparr>dollar_or := Missing\<rparr>)"
    using C10_and_shadows_or [OF a b] by blast
  moreover have "?q\<lparr>dollar_or := Missing\<rparr> = empty_filter\<lparr>dollar_and := Present [age_below_30]\<rparr>"
    by (simp add: empty_filter_def)
  ultimately have "find13 example_host people ?q = Inr [Cid]" using 1 by simp
  then show ?thesis using a b 1 2 by simp
qed

section \<open>The query\<close>

text \<open>
  C2, as amended. For a filter that has no field named \<^verbatim>\<open>hasOwnProperty\<close>, the
  evaluator that \<open>find\<close> applies to the decoded records is the composite one when the
  filter has the key \<open>$and\<close> or the key \<open>$or\<close>; otherwise the text one when it has
  the key \<open>$text\<close>; otherwise the conditional one. A filter with both \<open>$text\<close> and
  \<open>$and\<close> is evaluated as a composite filter.
\<close>

theorem C2_detection_order:
  assumes "readFile h (filename db) = Some rawData"
    and "decode_rows h (split_on is_newline rawData) [] = Inr entries"
    and "\<not> hasOwnProperty_shadowed (field_props q)"
  shows "(dollar_and q \<noteq> Missing \<or> dollar_or q \<noteq> Missing \<longrightarrow>
            find13 h db q = array_filter (\<lambda>e. filterByMultiFilter h e q) entries
          \<and> find14 h db q opts
              = map_sum id (apply_options h opts) (array_filter (\<lambda>e. filterByMultiFilter h e q) entries))
       \<and> (dollar_and q = Missing \<and> dollar_or q = Missing \<and> dollar_text q \<noteq> None \<longrightarrow>
            find13 h db q = array_filter (\<lambda>e. filterByText h db e q) entries
          \<and> find14 h db q opts
              = map_sum id (apply_options h opts) (array_filter (\<lambda>e. filterByText h db e q) entries))
       \<and> (dollar_and q = Missing \<and> dollar_or q = Missing \<and> dollar_text q = None \<longrightarrow>
            find13 h db q = array_filter (\<lambda>e. filterByConditionOrArray h e (field_props q)) entries
          \<and> find14 h db q opts
              = map_sum id (apply_options h opts)
                  (array_filter (\<lambda>e. filterByConditionOrArray h e (field_props q)) entries))
       \<and> (dollar_text q \<noteq> None \<and> dollar_and q \<noteq> Missing \<longrightarrow>
            find13 h db q = array_filter (\<lambda>e. filterByMultiFilter h e q) entries)"
  using find13_unfold [OF assms(1,2), of q] find14_unfold [OF assms(1,2), of q opts] assms(3)
  by (simp add: filter_entries_def isMultiFilter_def isTextFilter_def)

lemma Ann_matches_Ann:
  "filterByText example_host people Ann (empty_filter\<lparr>dollar_text := Some ''Ann''\<rparr>) = Inr True"
  by (simp add: filterByText_def empty_filter_def people_def is_whitespace_def word_pattern_def
        example_host_def example_RegExp_def strip_boundaries_def literal_char_def
        is_syntax_char_def get_field_def Ann_def boundary_def is_word_char_def canonicalize_def)

lemma Ann_matches_Cid:
  "filterByText example_host people Cid (empty_filter\<lparr>dollar_text := Some ''Ann''\<rparr>) = Inr False"
  by (simp add: filterByText_def empty_filter_def people_def is_whitespace_def word_pattern_def
        example_host_def example_RegExp_def strip_boundaries_def literal_char_def
        is_syntax_char_def get_field_def Cid_def boundary_def is_word_char_def canonicalize_def)

theorem C2_detection_order_witness:
  "readFile example_host (filename people) = Some example_log
   \<and> decode_rows example_host (split_on is_newline example_log) [] = Inr [Ann, Cid]
   \<and> \<not> hasOwnProperty_shadowed (field_props empty_filter)
   \<and> find13 example_host people
        (empty_filter\<lparr>dollar_text := Some ''Ann'', dollar_and := Present [age_below_30]\<rparr>) = Inr [Cid]
   \<and> find13 example_host people (empty_filter\<lparr>dollar_text := Some ''Ann''\<rparr>) = Inr [Ann]
   \<and> find13 example_host people (empty_filter\<lparr>field_props := age_below_30\<rparr>) = Inr [Cid]"
proof -
  have n: "\<not> hasOwnProperty_shadowed (field_props empty_filter)"
    by (simp add: empty_filter_def hasOwnProperty_shadowed_def)
  let ?both = "empty_filter\<lparr>dollar_text := Some ''Ann'', dollar_and := Present [age_below_30]\<rparr>"
  have nb: "\<not> hasOwnProperty_shadowed (field_props ?both)" using n by simp
  have "find13 example_host people ?both
      = array_filter (\<lambda>e. filterByMultiFilter example_host e ?both) [Ann, Cid]"
    using C2_detection_order [OF example_read example_rows nb, of "None :: int findOptions option"]
    by simp
  then have 1: "find13 example_host people ?both = Inr [Cid]"
    by (simp add: filterByMultiFilter_def age_below_30_Ann age_below_30_Cid)
  let ?text = "empty_filter\<lparr>dollar_text := Some ''Ann''\<rparr>"
  have nt: "\<not> hasOwnProperty_shadowed (field_props ?text)" using n by simp
  have "find13 example_host people ?text
      = array_filter (\<lambda>e. filterByText example_host people e ?text) [Ann, Cid]"
    using C2_detection_order [OF example_read example_rows nt, of "None :: int findOptions option"]
    by (simp add: empty_filter_def)
  then have 2: "find13 example_host people ?text = Inr [Ann]"
    by (simp add: Ann_matches_Ann Ann_matches_Cid)
  let ?cond = "empty_filter\<lparr>field_props := age_below_30\<rparr>"
  have nc: "\<not> hasOwnProperty_shadowed (field_props ?cond)"
    by (simp add: age_below_30_def hasOwnProperty_shadowed_def)
  have "find13 example_host people ?cond
      = array_filter (\<lambda>e. filterByConditionOrArray example_host e (field_props ?cond)) [Ann, Cid]"
    using C2_detection_order [OF example_read example_rows nc, of "None :: int findOptions option"]
    by (simp add: empty_filter_def)
  then have 3: "find13 example_host people ?cond = Inr [Cid]"
    by (simp add: age_below_30_Ann age_below_30_Cid)
  show ?thesis using example_read example_rows n 1 2 3 by simp
qed

text \<open>
  C2 as stated fails for a filter that has a field named \<^verbatim>\<open>hasOwnProperty\<close>: the
  filter below has the key \<open>$and\<close>, and the composite evaluator keeps both records, but
  \<^verbatim>\<open>isMultiFilter\<close> calls \<^verbatim>\<open>filter.hasOwnProperty\<close>, which is not a function any
  more, and \<open>find\<close> fails before it chooses an evaluator.
\<close>

theorem C2_counterexample:
  "dollar_and shadowing_and \<noteq> Missing
   \<and> decode_rows example_host (split_on is_newline example_log) [] = Inr [Ann, Cid]
   \<and> array_filter (\<lambda>e. filterByMultiFilter example_host e shadowing_and) [Ann, Cid]
       = Inr [Ann, Cid]
   \<and> find13 example_host people shadowing_and = Inl TypeError"
proof -
  have "find13 example_host people shadowing_and = Inl TypeError"
    using find13_unfold [OF example_read example_rows, of shadowing_and]
    by (simp add: filter_entries_cases shadowing_and_def hasOwnProperty_shadowed_def)
  moreover have "array_filter (\<lambda>e. filterByMultiFilter example_host e shadowing_and) [Ann, Cid]
       = Inr [Ann, Cid]"
    by (simp add: filterByMultiFilter_def shadowing_and_def)
  ultimately show ?thesis using example_rows by (simp add: shadowing_and_def)
qed

text \<open>
  C3. The records that \<open>find\<close> returns come from the lines that start with the
  marker \<open>E\<close>, in the order of the lines: the result of exercise 13 is a subsequence of
  the decoded visible lines, and the result of exercise 14 is what sorting and projecting
  do to such a subsequence. A line that does not start with the marker changes nothing.
\<close>

theorem C3_only_visible_lines:
  assumes "readFile h (filename db) = Some rawData"
  shows "(find13 h db q = Inr rs \<longrightarrow>
            (\<exists>es. map (JSON_parse h) (visible_payloads rawData) = map Some es \<and> subseq rs es))
       \<and> (find14 h db q opts = Inr rs' \<longrightarrow>
            (\<exists>es kept. map (JSON_parse h) (visible_payloads rawData) = map Some es
                \<and> subseq kept es \<and> rs' = apply_options h opts kept))
       \<and> (\<not> isExist row \<longrightarrow>
            decode_rows h (rows1 @ row # rows2) [] = decode_rows h (rows1 @ rows2) [])"
proof (intro conjI impI)
  assume r: "find13 h db q = Inr rs"
  then obtain es where d: "decode_rows h (split_on is_newline rawData) [] = Inr es"
    and f: "filter_entries h db q es = Inr rs"
    using assms by (auto simp: find13_def split: sum.splits)
  from d have "map (JSON_parse h) (visible_payloads rawData) = map Some es"
    by (auto simp: decode_rows_Inr visible_payloads_def)
  with f show "\<exists>es. map (JSON_parse h) (visible_payloads rawData) = map Some es \<and> subseq rs es"
    using filter_entries_subseq by blast
next
  assume r: "find14 h db q opts = Inr rs'"
  then obtain es kept where d: "decode_rows h (split_on is_newline rawData) [] = Inr es"
    and f: "filter_entries h db q es = Inr kept" and k: "rs' = apply_options h opts kept"
    using assms by (auto simp: find14_def split: sum.splits)
  from d have "map (JSON_parse h) (visible_payloads rawData) = map Some es"
    by (auto simp: decode_rows_Inr visible_payloads_def)
  with f k show "\<exists>es kept. map (JSON_parse h) (visible_payloads rawData) = map Some es
      \<and> subseq kept es \<and> rs' = apply_options h opts kept"
    using filter_entries_subseq by blast
next
  assume "\<not> isExist row"
  then show "decode_rows h (rows1 @ row # rows2) [] = decode_rows h (rows1 @ rows2) []"
    by (rule decode_rows_skip)
qed

lemma example_payloads:
  \<open>visible_payloads example_log = [''{"name":"Ann","age":30}'', ''{"name":"Cid","age":25}'']\<close>
  by (simp add: visible_payloads_def example_log_def is_newline_def isExist_def
        ExistenceCharacter_def)

lemma example_decoded:
  "map (JSON_parse example_host) (visible_payloads example_log) = map Some [Ann, Cid]"
  by (simp add: example_payloads example_host_def example_JSON_parse_def)

lemma age_below_30_not_shadowed: "\<not> hasOwnProperty_shadowed age_below_30"
  by (simp add: age_below_30_def hasOwnProperty_shadowed_def)

lemma example_kept:
  "filter_entries example_host people (empty_filter\<lparr>field_props := age_below_30\<rparr>) [Ann, Cid]
     = Inr [Cid]"
  by (simp add: filter_entries_cases chosen_evaluator_def empty_filter_def
        age_below_30_not_shadowed age_below_30_Ann age_below_30_Cid)

lemma example_sorted_one: "apply_options example_host (Some by_name) [Cid] = [Cid]"
  by (simp add: apply_options_def by_name_def example_host_def example_Array_sort_def)

lemma example_sorted:
  "find14 example_host people (empty_filter\<lparr>field_props := age_below_30\<rparr>) (Some by_name)
     = Inr [Cid]"
  using find14_unfold [OF example_read example_rows,
      of "empty_filter\<lparr>field_props := age_below_30\<rparr>" "Some by_name"]
  by (simp add: example_kept example_sorted_one)

theorem C3_only_visible_lines_witness:
  "readFile example_host (filename people) = Some example_log
   \<and> find13 example_host people (empty_filter\<lparr>field_props := age_below_30\<rparr>) = Inr [Cid]
   \<and> find14 example_host people (empty_filter\<lparr>field_props := age_below_30\<rparr>) (Some by_name)
       = Inr [Cid]
   \<and> (\<exists>es. map (JSON_parse example_host) (visible_payloads example_log) = map Some es
          \<and> subseq [Cid] es)
   \<and> (\<exists>es kept. map (JSON_parse example_host) (visible_payloads example_log) = map Some es
          \<and> subseq kept es \<and> [Cid] = apply_options example_host (Some by_name) kept)
   \<and> \<not> isExist Bob_line
   \<and> decode_rows example_host ([Ann_line] @ Bob_line # []) []
       = decode_rows example_host ([Ann_line] @ []) []
   \<and> decode_rows example_host ([Ann_line] @ []) [] = Inr [Ann]"
proof -
  have d: "decode_rows example_host ([Ann_line] @ []) [] = Inr [Ann]"
    by (simp add: Ann_line_def isExist_def ExistenceCharacter_def example_host_def
          example_JSON_parse_def)
  have f: "find13 example_host people (empty_filter\<lparr>field_props := age_below_30\<rparr>) = Inr [Cid]"
    using find13_unfold [OF example_read example_rows] by (simp add: example_kept)
  have x: "\<not> isExist Bob_line"
    by (simp add: isExist_def Bob_line_def ExistenceCharacter_def)
  note t = C3_only_visible_lines [OF example_read,
        of "empty_filter\<lparr>field_props := age_below_30\<rparr>" "[Cid]"
           "Some by_name" "[Cid]" Bob_line "[Ann_line]" "[]"]
  have 1: "\<exists>es. map (JSON_parse example_host) (visible_payloads example_log) = map Some es
          \<and> subseq [Cid] es"
    using t f by blast
  have 2: "\<exists>es kept. map (JSON_parse example_host) (visible_payloads example_log) = map Some es
          \<and> subseq kept es \<and> [Cid] = apply_options example_host (Some by_name) kept"
    using t example_sorted by blast
  have 3: "decode_rows example_host ([Ann_line] @ Bob_line # []) []
       = decode_rows example_host ([Ann_line] @ []) []"
    using t x by blast
  show ?thesis using example_read f example_sorted 1 2 x 3 d by blast
qed

text \<open>
  C4, as amended. \<open>find\<close> fails with the error of the decoder exactly when some visible
  line has a payload that does not decode, and then it returns no record. When every
  visible line decodes, the outcome of \<open>find\<close> is the outcome of the filter on the
  decoded records, which can fail in its turn.
\<close>

theorem C4_decode_failure:
  assumes "readFile h (filename db) = Some rawData"
  shows "(find13 h db q = Inl SyntaxError_JSON
            \<longleftrightarrow> \<not> list_all (decodes h) (visible_payloads rawData))
       \<and> (find14 h db q opts = Inl SyntaxError_JSON
            \<longleftrightarrow> \<not> list_all (decodes h) (visible_payloads rawData))
       \<and> (list_all (decodes h) (visible_payloads rawData) \<longrightarrow>
            (\<exists>es. map (JSON_parse h) (visible_payloads rawData) = map Some es
               \<and> find13 h db q = filter_entries h db q es
               \<and> find14 h db q opts
                   = map_sum id (apply_options h opts) (filter_entries h db q es)))"
proof -
  let ?rows = "split_on is_newline rawData"
  have bad: "\<not> list_all (decodes h) (visible_payloads rawData)
      \<Longrightarrow> decode_rows h ?rows [] = Inl SyntaxError_JSON"
    by (simp add: decode_rows_Inl visible_payloads_def)
  have good: "list_all (decodes h) (visible_payloads rawData)
      \<Longrightarrow> \<exists>es. decode_rows h ?rows [] = Inr es"
  proof -
    assume a: "list_all (decodes h) (visible_payloads rawData)"
    show "\<exists>es. decode_rows h ?rows [] = Inr es"
    proof (cases "decode_rows h ?rows []")
      case (Inl err)
      then show ?thesis using a by (simp add: decode_rows_Inl visible_payloads_def)
    next
      case (Inr es)
      then show ?thesis by blast
    qed
  qed
  have dec: "\<And>es. decode_rows h ?rows [] = Inr es
      \<Longrightarrow> map (JSON_parse h) (visible_payloads rawData) = map Some es"
    by (auto simp: decode_rows_Inr visible_payloads_def)
  have 1: "find13 h db q = Inl SyntaxError_JSON
      \<longleftrightarrow> \<not> list_all (decodes h) (visible_payloads rawData)"
  proof (cases "list_all (decodes h) (visible_payloads rawData)")
    case True
    then obtain es where "decode_rows h ?rows [] = Inr es" using good by blast
    then show ?thesis
      using True assms find13_unfold [of h db rawData es q] filter_entries_not_JSON [of h db q es]
      by simp
  next
    case False
    then show ?thesis using bad assms by (simp add: find13_def)
  qed
  have 2: "find14 h db q opts = Inl SyntaxError_JSON
      \<longleftrightarrow> \<not> list_all (decodes h) (visible_payloads rawData)"
  proof (cases "list_all (decodes h) (visible_payloads rawData)")
    case True
    then obtain es where "decode_rows h ?rows [] = Inr es" using good by blast
    then show ?thesis
      using True assms find14_unfold [of h db rawData es q opts]
        filter_entries_not_JSON [of h db q es]
      by (cases "filter_entries h db q es") simp_all
  next
    case False
    then show ?thesis using bad assms by (simp add: find14_def)
  qed
  have 3: "list_all (decodes h) (visible_payloads rawData) \<longrightarrow>
            (\<exists>es. map (JSON_parse h) (visible_payloads rawData) = map Some es
               \<and> find13 h db q = filter_entries h db q es
               \<and> find14 h db q opts
                   = map_sum id (apply_options h opts) (filter_entries h db q es))"
  proof
    assume "list_all (decodes h) (visible_payloads rawData)"
    then obtain es where d: "decode_rows h ?rows [] = Inr es" using good by blast
    show "\<exists>es. map (JSON_parse h) (visible_payloads rawData) = map Some es
               \<and> find13 h db q = filter_entries h db q es
               \<and> find14 h db q opts
                   = map_sum id (apply_options h opts) (filter_entries h db q es)"
      using dec [OF d] find13_unfold [OF assms d] find14_unfold [OF assms d] by blast
  qed
  show ?thesis using 1 2 3 by blast
qed

lemma paren_rejected: "RegExp example_host (word_pattern ''('') ''i'' = None"
  by (simp add: word_pattern_def example_host_def example_RegExp_def strip_boundaries_def
        literal_char_def is_syntax_char_def)

lemma paren_throws:
  "filterByText example_host people e (empty_filter\<lparr>dollar_text := Some ''(''\<rparr>)
     = Inl SyntaxError_RegExp"
  by (simp add: filterByText_def empty_filter_def is_whitespace_def paren_rejected)

text \<open>
  C4 as stated fails: every visible line of the example log decodes, and the query for
  the text \<^verbatim>\<open>(\<close> fails all the same, since \<^verbatim>\<open>\b(\b\<close> is not a regular expression.
\<close>

theorem C4_counterexample:
  "readFile example_host (filename people) = Some example_log
   \<and> list_all (decodes example_host) (visible_payloads example_log)
   \<and> find13 example_host people (empty_filter\<lparr>dollar_text := Some ''(''\<rparr>)
       = Inl SyntaxError_RegExp"
proof -
  have "list_all (decodes example_host) (visible_payloads example_log)"
    by (simp add: example_payloads decodes_def example_host_def example_JSON_parse_def)
  moreover have "find13 example_host people (empty_filter\<lparr>dollar_text := Some ''(''\<rparr>)
       = Inl SyntaxError_RegExp"
    using find13_unfold [OF example_read example_rows,
        of "empty_filter\<lparr>dollar_text := Some ''(''\<rparr>"]
    by (simp add: filter_entries_cases chosen_evaluator_def paren_throws)
       (simp add: empty_filter_def hasOwnProperty_shadowed_def)
  ultimately show ?thesis using example_read by simp
qed

lemma broken_read: "readFile example_host (filename broken) = Some broken_log"
  by (simp add: example_host_def broken_def example_readFile_def)

lemma broken_payloads:
  \<open>visible_payloads broken_log
     = [''{"name":"Ann","age":30}'', ''{oops'', ''{"name":"Cid","age":25}'']\<close>
  by (simp add: visible_payloads_def broken_log_def is_newline_def isExist_def
        ExistenceCharacter_def)

theorem C4_decode_failure_witness:
  "readFile example_host (filename broken) = Some broken_log
   \<and> \<not> list_all (decodes example_host) (visible_payloads broken_log)
   \<and> find13 example_host broken empty_filter = Inl SyntaxError_JSON
   \<and> find14 example_host broken empty_filter (None :: int findOptions option)
       = Inl SyntaxError_JSON
   \<and> readFile example_host (filename people) = Some example_log
   \<and> list_all (decodes example_host) (visible_payloads example_log)
   \<and> find13 example_host people empty_filter \<noteq> Inl SyntaxError_JSON
   \<and> find13 example_host people empty_filter
       = filter_entries example_host people empty_filter [Ann, Cid]"
proof -
  have b: "\<not> list_all (decodes example_host) (visible_payloads broken_log)"
    by (simp add: broken_payloads decodes_def example_host_def example_JSON_parse_def)
  have g: "list_all (decodes example_host) (visible_payloads example_log)"
    by (simp add: example_payloads decodes_def example_host_def example_JSON_parse_def)
  have d: "\<And>es. map (JSON_parse example_host) (visible_payloads example_log) = map Some es
      \<Longrightarrow> es = [Ann, Cid]"
    using example_decoded by (auto simp: Cons_eq_map_conv)
  show ?thesis
    using C4_decode_failure [OF broken_read, of empty_filter "None :: int findOptions option"]
      C4_decode_failure [OF example_read, of empty_filter "None :: int findOptions option"]
      b g d broken_read example_read
    by auto
qed

section \<open>The text filter\<close>

lemma text_fields_eq:
  "text_fields test e names r
     = (r \<or> list_ex (\<lambda>f. case get_field e f of JString s \<Rightarrow> test s | _ \<Rightarrow> False) names)"
  by (induction names arbitrary: r) (auto split: jsval.splits)

lemma text_fields_whole_word:
  "text_fields (contains_whole_word w) e names r = (r \<or> list_ex (field_contains e w) names)"
  unfolding text_fields_eq field_contains_def ..

lemma text_words_literal:
  assumes "RegExp_whole_words h"
  shows "list_all literal_word ws \<Longrightarrow>
    text_words h names e ws r
      = Inr (r \<or> list_ex (\<lambda>w. list_ex (field_contains e w) names) ws)"
proof (induction ws arbitrary: r)
  case Nil
  then show ?case by simp
next
  case (Cons w ws)
  have "RegExp h (word_pattern w) ''i'' = Some (contains_whole_word w)"
    using assms Cons.prems by (simp add: RegExp_whole_words_def)
  then show ?case
    using Cons by (auto simp: text_fields_whole_word)
qed

lemma field_contains_iff:
  "field_contains e w f \<longleftrightarrow> (\<exists>s. get_field e f = JString s \<and> contains_whole_word w s)"
  by (cases "get_field e f") (simp_all add: field_contains_def)

lemma last_before_Cons: "last_before prev (c # cs) = last_before (Some c) cs"
  by (simp add: last_before_def)

lemma last_before_append:
  "last_before prev (xs @ ys) = last_before (last_before prev xs) ys"
  by (simp add: last_before_def)

lemma match_here_iff:
  "match_here as prev rest \<longleftrightarrow>
     (\<exists>mid post. rest = mid @ post \<and> list_all2 atom_matches as mid
        \<and> boundary (last_before prev mid) post)"
proof (induction as prev rest rule: match_here.induct)
  case (1 prev rest)
  then show ?case by (simp add: last_before_def)
next
  case (2 a as prev)
  then show ?case by simp
next
  case (3 a as prev c cs)
  show ?case
  proof
    assume "match_here (a # as) prev (c # cs)"
    then obtain mid post where "atom_matches a c" "cs = mid @ post"
      "list_all2 atom_matches as mid" "boundary (last_before (Some c) mid) post"
      using 3 by auto
    then have "c # cs = (c # mid) @ post \<and> list_all2 atom_matches (a # as) (c # mid)
        \<and> boundary (last_before prev (c # mid)) post"
      by (simp add: last_before_Cons)
    then show "\<exists>mid post. c # cs = mid @ post \<and> list_all2 atom_matches (a # as) mid
        \<and> boundary (last_before prev mid) post"
      by blast
  next
    assume "\<exists>mid post. c # cs = mid @ post \<and> list_all2 atom_matches (a # as) mid
        \<and> boundary (last_before prev mid) post"
    then obtain mid post where m: "c # cs = mid @ post" "list_all2 atom_matches (a # as) mid"
      "boundary (last_before prev mid) post"
      by blast
    from m(2) obtain d mid' where d: "mid = d # mid'" "atom_matches a d"
      "list_all2 atom_matches as mid'"
      by (auto simp: list_all2_Cons1)
    with m have "d = c" "cs = mid' @ post" "boundary (last_before (Some c) mid') post"
      by (simp_all add: last_before_Cons)
    then show "match_here (a # as) prev (c # cs)" using d 3 by auto
  qed
qed

lemma search_iff:
  "search as prev s \<longleftrightarrow>
     (\<exists>pre mid post. s = pre @ mid @ post \<and> list_all2 atom_matches as mid
        \<and> boundary (last_before prev pre) (mid @ post)
        \<and> boundary (last_before prev (pre @ mid)) post)"
proof (induction s arbitrary: prev)
  case Nil
  then show ?case by (auto simp: match_here_iff last_before_def)
next
  case (Cons c cs)
  show ?case
  proof
    assume "search as prev (c # cs)"
    then consider (here) "boundary prev (c # cs)" "match_here as prev (c # cs)"
      | (later) "search as (Some c) cs"
      by auto
    then show "\<exists>pre mid post. c # cs = pre @ mid @ post \<and> list_all2 atom_matches as mid
        \<and> boundary (last_before prev pre) (mid @ post)
        \<and> boundary (last_before prev (pre @ mid)) post"
    proof cases
      case here
      then obtain mid post where "c # cs = mid @ post" "list_all2 atom_matches as mid"
        "boundary (last_before prev mid) post"
        using match_here_iff by blast
      then have "c # cs = [] @ mid @ post \<and> list_all2 atom_matches as mid
        \<and> boundary (last_before prev []) (mid @ post)
        \<and> boundary (last_before prev ([] @ mid)) post"
        using here(1) by (simp add: last_before_def)
      then show ?thesis by blast
    next
      case later
      then obtain pre mid post where "cs = pre @ mid @ post" "list_all2 atom_matches as mid"
        "boundary (last_before (Some c) pre) (mid @ post)"
        "boundary (last_before (Some c) (pre @ mid)) post"
        using Cons.IH by blast
      then have "c # cs = (c # pre) @ mid @ post \<and> list_all2 atom_matches as mid
        \<and> boundary (last_before prev (c # pre)) (mid @ post)
        \<and> boundary (last_before prev ((c # pre) @ mid)) post"
        by (simp add: last_before_Cons)
      then show ?thesis by blast
    qed
  next
    assume "\<exists>pre mid post. c # cs = pre @ mid @ post \<and> list_all2 atom_matches as mid
        \<and> boundary (last_before prev pre) (mid @ post)
        \<and> boundary (last_before prev (pre @ mid)) post"
    then obtain pre mid post where p: "c # cs = pre @ mid @ post"
      "list_all2 atom_matches as mid" "boundary (last_before prev pre) (mid @ post)"
      "boundary (last_before prev (pre @ mid)) post"
      by blast
    show "search as prev (c # cs)"
    proof (cases pre)
      case Nil
      then have "boundary prev (c # cs)" using p by (simp add: last_before_def)
      moreover have "match_here as prev (c # cs)"
        using p Nil match_here_iff [of as prev "c # cs"] by auto
      ultimately show ?thesis by simp
    next
      case (Cons d pre')
      then have "cs = pre' @ mid @ post \<and> list_all2 atom_matches as mid
        \<and> boundary (last_before (Some c) pre') (mid @ post)
        \<and> boundary (last_before (Some c) (pre' @ mid)) post"
        using p by (auto simp: last_before_Cons)
      then have "search as (Some c) cs" using Cons.IH by blast
      then show ?thesis by simp
    qed
  qed
qed

lemma literal_atoms_match:
  "list_all2 atom_matches (map Literal w) mid \<longleftrightarrow> map canonicalize mid = map canonicalize w"
  by (induction w arbitrary: mid) (auto simp: list_all2_Cons1)

lemma contains_whole_word_iff:
  "contains_whole_word w s \<longleftrightarrow>
     (\<exists>pre mid post. s = pre @ mid @ post \<and> map canonicalize mid = map canonicalize w
        \<and> boundary (last_before None pre) (mid @ post)
        \<and> boundary (last_before None (pre @ mid)) post)"
  by (simp add: contains_whole_word_def search_iff literal_atoms_match)

text \<open>
  C5, as amended. Let the host's regular expressions test literal words for whole-word
  occurrences. For a text filter whose words, the pieces of \<open>$text\<close> between
  whitespace characters, are all literal (not empty, and free of the characters of
  regular-expression syntax), a record matches exactly when some word occurs as a whole
  word, case-insensitively, in some searchable field whose value is a string. Fields
  that hold no string are not searched. An occurrence counts only with a word boundary
  on both of its sides, so that one inside a longer word does not count.
\<close>

theorem C5_text_filter:
  assumes "RegExp_whole_words h"
    and "dollar_text q = Some text"
    and "list_all literal_word (split_on is_whitespace text)"
  shows "filterByText h db R q = Inr (text_match_spec (fullTextSearchFieldNames db) R text)
       \<and> (text_match_spec (fullTextSearchFieldNames db) R text \<longleftrightarrow>
            (\<exists>w \<in> set (split_on is_whitespace text). \<exists>f \<in> set (fullTextSearchFieldNames db).
               \<exists>s. get_field R f = JString s \<and> contains_whole_word w s))
       \<and> (contains_whole_word w' s' \<longleftrightarrow>
            (\<exists>pre mid post. s' = pre @ mid @ post \<and> map canonicalize mid = map canonicalize w'
               \<and> boundary (last_before None pre) (mid @ post)
               \<and> boundary (last_before None (pre @ mid)) post))"
proof -
  have "filterByText h db R q = Inr (text_match_spec (fullTextSearchFieldNames db) R text)"
    using assms(2) text_words_literal [OF assms(1) assms(3)]
    by (simp add: filterByText_def text_match_spec_def)
  moreover have "text_match_spec (fullTextSearchFieldNames db) R text \<longleftrightarrow>
            (\<exists>w \<in> set (split_on is_whitespace text). \<exists>f \<in> set (fullTextSearchFieldNames db).
               \<exists>s. get_field R f = JString s \<and> contains_whole_word w s)"
    by (simp add: text_match_spec_def list_ex_iff field_contains_iff)
  ultimately show ?thesis using contains_whole_word_iff [of w' s'] by blast
qed

lemma strip_word_pattern: "strip_boundaries (word_pattern w) = Some w"
  by (simp add: strip_boundaries_def word_pattern_def)

lemma compile_literal_chars:
  "list_all literal_char w \<Longrightarrow> compile_atoms w = Some (map Literal w)"
  by (induction w) (auto simp: literal_char_def is_syntax_char_def)

lemma example_host_whole_words: "RegExp_whole_words example_host"
  by (auto simp: RegExp_whole_words_def example_host_def example_RegExp_def strip_word_pattern
        literal_word_def compile_literal_chars contains_whole_word_def fun_eq_iff)

lemma cat_is_literal: "list_all literal_word (split_on is_whitespace ''cat'')"
  by (simp add: is_whitespace_def literal_word_def literal_char_def is_syntax_char_def)

lemma cat_in_story: "text_match_spec [''name''] cat_story ''cat''"
  by (simp add: text_match_spec_def is_whitespace_def field_contains_def get_field_def
        cat_story_def contains_whole_word_def boundary_def is_word_char_def canonicalize_def)

lemma cat_not_in_concatenate: "\<not> text_match_spec [''name''] concat_note ''cat''"
  by (simp add: text_match_spec_def is_whitespace_def field_contains_def get_field_def
        concat_note_def contains_whole_word_def boundary_def is_word_char_def canonicalize_def)

theorem C5_text_filter_witness:
  "RegExp_whole_words example_host
   \<and> dollar_text (empty_filter\<lparr>dollar_text := Some ''cat''\<rparr>) = Some ''cat''
   \<and> list_all literal_word (split_on is_whitespace ''cat'')
   \<and> filterByText example_host people cat_story (empty_filter\<lparr>dollar_text := Some ''cat''\<rparr>)
       = Inr True
   \<and> filterByText example_host people concat_note (empty_filter\<lparr>dollar_text := Some ''cat''\<rparr>)
       = Inr False"
proof -
  have t: "dollar_text (empty_filter\<lparr>dollar_text := Some ''cat''\<rparr>) = Some ''cat''" by simp
  note c = C5_text_filter [OF example_host_whole_words t cat_is_literal, of people]
  have "filterByText example_host people cat_story (empty_filter\<lparr>dollar_text := Some ''cat''\<rparr>)
       = Inr True"
    using c [of cat_story] cat_in_story by (simp add: people_def)
  moreover have "filterByText example_host people concat_note
       (empty_filter\<lparr>dollar_text := Some ''cat''\<rparr>) = Inr False"
    using c [of concat_note] cat_not_in_concatenate by (simp add: people_def)
  ultimately show ?thesis
    using example_host_whole_words t cat_is_literal by blast
qed

text \<open>
  C5 as stated fails: a word is spliced into the regular expression as it is, so its
  syntax characters keep their meaning. The word \<^verbatim>\<open>c.t\<close> matches the name
  \<^verbatim>\<open>cot\<close>, which does not contain it.
\<close>

theorem C5_counterexample:
  "filterByText example_host people Cot (empty_filter\<lparr>dollar_text := Some ''c.t''\<rparr>) = Inr True
   \<and> \<not> text_match_spec (fullTextSearchFieldNames people) Cot ''c.t''"
proof -
  have "RegExp example_host (word_pattern ''c.t'') ''i''
      = Some (search [Literal CHR ''c'', AnyChar, Literal CHR ''t''] None)"
    by (simp add: word_pattern_def example_host_def example_RegExp_def strip_boundaries_def
        literal_char_def is_syntax_char_def)
  then have "filterByText example_host people Cot (empty_filter\<lparr>dollar_text := Some ''c.t''\<rparr>)
      = Inr True"
    by (simp add: filterByText_def empty_filter_def is_whitespace_def people_def
        get_field_def Cot_def boundary_def is_word_char_def canonicalize_def)
  moreover have "\<not> text_match_spec (fullTextSearchFieldNames people) Cot ''c.t''"
    by (simp add: text_match_spec_def is_whitespace_def field_contains_def get_field_def
        people_def Cot_def contains_whole_word_def boundary_def is_word_char_def canonicalize_def)
  ultimately show ?thesis by blast
qed

section \<open>A clause that no record satisfies\<close>

lemma apply_condition_imp: "apply_condition h e f c r \<Longrightarrow> r"
  by (auto simp: apply_condition_def Let_def split: if_splits option.splits)

lemma apply_condition_empty_in: "dollar_in c = Some [] \<Longrightarrow> apply_condition h e f c r = False"
  by (simp add: apply_condition_def Let_def array_includes_def)

lemma condition_loop_False: "condition_loop h e False flt False \<noteq> Inr True"
proof (induction flt)
  case Nil
  then show ?case by simp
next
  case (Cons p flt)
  obtain f c where p: "p = (f, c)" by (cases p)
  show ?case
  proof (cases c)
    case None
    then show ?thesis using p by simp
  next
    case (Some c')
    have "apply_condition h e f c' False = False"
      using apply_condition_imp [of h e f c' False] by blast
    then show ?thesis using p Some Cons.IH by simp
  qed
qed

lemma condition_loop_shadowed: "flt \<noteq> [] \<Longrightarrow> condition_loop h e True flt r = Inl TypeError"
  by (cases flt) auto

lemma condition_loop_failing_clause_own:
  "(f, Some c) \<in> set flt \<Longrightarrow> (\<And>r. apply_condition h e f c r = False)
     \<Longrightarrow> condition_loop h e False flt r \<noteq> Inr True"
proof (induction flt arbitrary: r)
  case Nil
  then show ?case by simp
next
  case (Cons p flt)
  obtain g d where p: "p = (g, d)" by (cases p)
  show ?case
  proof (cases d)
    case None
    then show ?thesis using p by simp
  next
    case (Some d')
    show ?thesis
    proof (cases "p = (f, Some c)")
      case True
      then show ?thesis using p Some Cons.prems(2) condition_loop_False by simp
    next
      case False
      then have "(f, Some c) \<in> set flt" using Cons.prems(1) by simp
      then show ?thesis using p Some Cons.IH Cons.prems(2) by simp
    qed
  qed
qed

lemma condition_loop_failing_clause:
  assumes "(f, Some c) \<in> set flt" and "\<And>r. apply_condition h e f c r = False"
  shows "condition_loop h e sh flt r \<noteq> Inr True"
proof (cases sh)
  case True
  have "flt \<noteq> []" using assms(1) by auto
  then show ?thesis using True condition_loop_shadowed [of flt h e r] by simp
next
  case False
  then show ?thesis using condition_loop_failing_clause_own [OF assms] by simp
qed

lemma condition_loop_defined:
  "\<forall>p \<in> set flt. snd p \<noteq> None \<Longrightarrow> \<exists>b. condition_loop h e False flt r = Inr b"
  by (induction flt arbitrary: r) auto

text \<open>
  C9. A clause \<open>$in: []\<close> is not skipped: the empty array is truthy, the clause is
  evaluated, and it is false for every record and every running result. A conditional
  filter that has such a clause on some field never matches a record; it evaluates to
  false when all its fields hold a condition and none is named \<^verbatim>\<open>hasOwnProperty\<close>,
  and it throws otherwise; a query with it returns no record.
\<close>

theorem C9_empty_in_operand:
  assumes "(f, Some c) \<in> set F" and "dollar_in c = Some []"
  shows "apply_condition h R f c result = False
       \<and> filterByConditionOrArray h R F \<noteq> Inr True
       \<and> ((\<forall>p \<in> set F. snd p \<noteq> None) \<and> \<not> hasOwnProperty_shadowed F
            \<longrightarrow> filterByConditionOrArray h R F = Inr False)
       \<and> (dollar_and q = Missing \<and> dollar_or q = Missing \<and> dollar_text q = None
            \<and> field_props q = F \<and> find13 h db q = Inr rs \<longrightarrow> rs = [])"
proof -
  have 1: "\<And>r. apply_condition h R f c r = False"
    using assms(2) by (rule apply_condition_empty_in)
  have 2: "\<And>e. filterByConditionOrArray h e F \<noteq> Inr True"
    unfolding filterByConditionOrArray_def
    using assms(1) apply_condition_empty_in [OF assms(2)]
    by (rule condition_loop_failing_clause)
  have 3: "(\<forall>p \<in> set F. snd p \<noteq> None) \<and> \<not> hasOwnProperty_shadowed F
      \<longrightarrow> filterByConditionOrArray h R F = Inr False"
  proof
    assume a: "(\<forall>p \<in> set F. snd p \<noteq> None) \<and> \<not> hasOwnProperty_shadowed F"
    then obtain b where "filterByConditionOrArray h R F = Inr b"
      using condition_loop_defined [of F h R True] by (auto simp: filterByConditionOrArray_def)
    then show "filterByConditionOrArray h R F = Inr False" using 2 [of R] by (cases b) auto
  qed
  have 4: "dollar_and q = Missing \<and> dollar_or q = Missing \<and> dollar_text q = None
            \<and> field_props q = F \<and> find13 h db q = Inr rs \<longrightarrow> rs = []"
  proof
    assume a: "dollar_and q = Missing \<and> dollar_or q = Missing \<and> dollar_text q = None
            \<and> field_props q = F \<and> find13 h db q = Inr rs"
    then obtain es where "filter_entries h db q es = Inr rs"
      by (auto simp: find13_def split: option.splits sum.splits)
    then have "array_filter (chosen_evaluator h db q) es = Inr rs"
      by (simp add: filter_entries_cases split: if_splits)
    then have "rs = filter (\<lambda>e. chosen_evaluator h db q e = Inr True) es"
      by (rule array_filter_Inr)
    then show "rs = []" using a 2 by (simp add: chosen_evaluator_def)
  qed
  show ?thesis using 1 2 3 4 by blast
qed

lemma nothing_found:
  "find13 example_host people (empty_filter\<lparr>field_props := age_in_nothing\<rparr>) = Inr []"
  using example_find13 [of "empty_filter\<lparr>field_props := age_in_nothing\<rparr>"]
  by (simp add: chosen_evaluator_def empty_filter_def hasOwnProperty_shadowed_def
        filterByConditionOrArray_def age_in_nothing_def apply_condition_def no_condition_def
        array_includes_def)

theorem C9_empty_in_operand_witness:
  "(''age'', Some (no_condition\<lparr>dollar_in := Some []\<rparr>)) \<in> set age_in_nothing
   \<and> dollar_in (no_condition\<lparr>dollar_in := Some []\<rparr>) = Some []
   \<and> \<not> hasOwnProperty_shadowed age_in_nothing
   \<and> filterByConditionOrArray example_host Ann age_in_nothing = Inr False
   \<and> filterByConditionOrArray example_host Ann [(''age'', Some no_condition)] = Inr True
   \<and> find13 example_host people (empty_filter\<lparr>field_props := age_in_nothing\<rparr>) = Inr []
   \<and> find13 example_host people (empty_filter\<lparr>field_props := [(''age'', Some no_condition)]\<rparr>)
       = Inr [Ann, Cid]"
proof -
  have a: "(''age'', Some (no_condition\<lparr>dollar_in := Some []\<rparr>)) \<in> set age_in_nothing"
    by (simp add: age_in_nothing_def)
  have b: "dollar_in (no_condition\<lparr>dollar_in := Some []\<rparr>) = Some []" by simp
  have c: "(\<forall>p \<in> set age_in_nothing. snd p \<noteq> None) \<and> \<not> hasOwnProperty_shadowed age_in_nothing"
    by (simp add: age_in_nothing_def hasOwnProperty_shadowed_def)
  have "filterByConditionOrArray example_host Ann age_in_nothing = Inr False"
    using C9_empty_in_operand [OF a b] c by blast
  moreover have "filterByConditionOrArray example_host Ann [(''age'', Some no_condition)] = Inr True"
    by (simp add: filterByConditionOrArray_def apply_condition_def no_condition_def
          hasOwnProperty_shadowed_def)
  moreover have "find13 example_host people
      (empty_filter\<lparr>field_props := [(''age'', Some no_condition)]\<rparr>) = Inr [Ann, Cid]"
    using example_find13 [of "empty_filter\<lparr>field_props := [(''age'', Some no_condition)]\<rparr>"]
    by (simp add: chosen_evaluator_def empty_filter_def hasOwnProperty_shadowed_def
        filterByConditionOrArray_def apply_condition_def no_condition_def)
  ultimately show ?thesis using a b c nothing_found by blast
qed

section \<open>Projection\<close>

lemma map_of_set_property: "map_of (set_property k v e) = (map_of e)(k \<mapsto> v)"
  by (induction e) (auto simp: fun_eq_iff)

lemma keys_set_property: "fst ` set (set_property k v e) = insert k (fst ` set e)"
  by (induction k v e rule: set_property.induct) auto

lemma distinct_set_property:
  "distinct (map fst e) \<Longrightarrow> distinct (map fst (set_property k v e))"
  by (induction e) (auto simp: keys_set_property)

lemma set_property_fresh: "k \<notin> fst ` set e \<Longrightarrow> set_property k v e = e @ [(k, v)]"
  by (induction e) auto

lemma map_of_project_loop:
  "map_of (project_loop R fs acc) f
     = (if f \<in> set fs then Some (get_field R f) else map_of acc f)"
  by (induction fs arbitrary: acc) (auto simp: map_of_set_property)

lemma keys_project_loop: "fst ` set (project_loop R fs acc) = set fs \<union> fst ` set acc"
  by (induction fs arbitrary: acc) (auto simp: keys_set_property)

lemma distinct_project_loop:
  "distinct (map fst acc) \<Longrightarrow> distinct (map fst (project_loop R fs acc))"
  by (induction fs arbitrary: acc) (auto simp: distinct_set_property)

lemma project_loop_fresh:
  "distinct fs \<Longrightarrow> set fs \<inter> fst ` set acc = {}
     \<Longrightarrow> project_loop R fs acc = acc @ map (\<lambda>f. (f, get_field R f)) fs"
proof (induction fs arbitrary: acc)
  case Nil
  then show ?case by simp
next
  case (Cons f fs)
  have "f \<notin> fst ` set acc" using Cons.prems(2) by auto
  then have s: "set_property f (get_field R f) acc = acc @ [(f, get_field R f)]"
    by (rule set_property_fresh)
  have "set fs \<inter> fst ` set (acc @ [(f, get_field R f)]) = {}"
    using Cons.prems by auto
  then show ?case using Cons.IH [of "acc @ [(f, get_field R f)]"] Cons.prems(1) s by simp
qed

text \<open>
  C8, as amended. The projection of a record \<open>R\<close> by a specification \<open>P\<close> has exactly
  the fields that are keys of \<open>P\<close>, whatever their flags, each once and each with the
  value that \<open>R\<close> has for it; no other field of \<open>R\<close> is in the result. When the keys
  of \<open>P\<close> are distinct, as those of an object are, the fields come in the order of
  \<open>P\<close>; when moreover every flag is set, the result has exactly the fields whose flag
  is set.
\<close>

theorem C8_projection:
  "fst ` set (project R P) = fst ` set P
   \<and> distinct (map fst (project R P))
   \<and> map_of (project R P) f = (if f \<in> fst ` set P then Some (get_field R f) else None)
   \<and> (distinct (map fst P) \<longrightarrow> project R P = map (\<lambda>p. (fst p, get_field R (fst p))) P)
   \<and> (distinct (map fst P') \<and> list_all (\<lambda>p. truthy (snd p)) P'
        \<longrightarrow> project R P' = project_spec R P')"
proof -
  have "list_all (\<lambda>p. truthy (snd p)) P' \<Longrightarrow> filter (\<lambda>p. truthy (snd p)) P' = P'"
    by (simp add: list_all_iff)
  then have "distinct (map fst P') \<and> list_all (\<lambda>p. truthy (snd p)) P'
        \<longrightarrow> project R P' = project_spec R P'"
    using project_loop_fresh [of "map fst P'" "[]" R]
    by (simp add: project_def project_spec_def comp_def)
  moreover have "distinct (map fst P) \<longrightarrow> project R P = map (\<lambda>p. (fst p, get_field R (fst p))) P"
    using project_loop_fresh [of "map fst P" "[]" R] by (simp add: project_def comp_def)
  ultimately show ?thesis
    using map_of_project_loop [of R "map fst P" "[]" f] keys_project_loop [of R "map fst P" "[]"]
      distinct_project_loop [of "[]" R "map fst P"]
    by (simp add: project_def)
qed

theorem C8_projection_witness:
  "distinct (map fst name_only)
   \<and> list_all (\<lambda>p. truthy (snd p)) name_only
   \<and> project Ann name_only = [(''name'', JString ''Ann'')]
   \<and> project_spec Ann name_only = [(''name'', JString ''Ann'')]
   \<and> map_of (project Ann name_only) ''age'' = None
   \<and> map_of Ann ''age'' = Some (JNumber (Finite 30))"
  using C8_projection [of Ann name_only "''age''" name_only]
  by (simp add: Ann_def get_field_def name_only_def project_spec_def)

text \<open>
  C8 as stated fails: \<^verbatim>\<open>project\<close> reads the keys of the specification and never a
  flag. The specification \<open>{name: 1, age: undefined}\<close> has the declared type, the flag
  of the age is not set, and the result has the age all the same.
\<close>

theorem C8_counterexample:
  "\<not> truthy (JUndefined)
   \<and> project_spec Ann name_and_unset_age = [(''name'', JString ''Ann'')]
   \<and> project Ann name_and_unset_age
       = [(''name'', JString ''Ann''), (''age'', JNumber (Finite 30))]"
  by (simp add: project_def project_spec_def name_and_unset_age_def Ann_def get_field_def)

section \<open>The comparator\<close>

lemma sort'_first_ordered:
  "sort' h a b spec =
     (case first_ordered h a b spec of
        None \<Rightarrow> 0
      | Some (f, d) \<Rightarrow> if js_greater h (get_field a f) (get_field b f) then d else - d)"
  by (induction h a b spec rule: sort'.induct) auto

lemma sort'_listed_fields:
  "\<forall>f \<in> fst ` set spec. get_field a f = get_field a' f \<and> get_field b f = get_field b' f
     \<Longrightarrow> sort' h a b spec = sort' h a' b' spec"
  by (induction h a b spec rule: sort'.induct) auto

lemma string_less_irrefl: "\<not> string_less s s"
  by (induction s) auto

lemma string_less_total: "s \<noteq> t \<Longrightarrow> string_less s t \<or> string_less t s"
proof (induction s t rule: string_less.induct)
  case (4 x xs y ys)
  show ?case
  proof (cases "x = y")
    case True
    then show ?thesis using 4 by auto
  next
    case False
    then have "(of_char x :: nat) \<noteq> of_char y" by simp
    then show ?thesis by auto
  qed
qed auto

lemma number_less_irrefl: "\<not> number_less x x"
  by (cases x) auto

lemma number_less_total:
  "x \<noteq> NaN \<Longrightarrow> y \<noteq> NaN \<Longrightarrow> x \<noteq> y \<Longrightarrow> number_less x y \<or> number_less y x"
  by (cases x; cases y) auto

lemma comparable_differ:
  "comparable x y \<Longrightarrow> \<not> loose_equals h x y \<Longrightarrow> js_greater h x y \<or> js_less h x y"
  by (cases x; cases y)
     (auto simp: js_greater_def js_less_def dest: string_less_total number_less_total)

lemma comparable_equal:
  "comparable x y \<Longrightarrow> loose_equals h x y \<Longrightarrow> \<not> js_greater h x y \<and> \<not> js_less h x y"
  by (cases x; cases y)
     (auto simp: js_greater_def js_less_def string_less_irrefl number_less_irrefl)

lemma sort'_comparable:
  "\<forall>f \<in> fst ` set spec. comparable (get_field a f) (get_field b f)
     \<Longrightarrow> sort' h a b spec = compare_spec h a b spec"
proof (induction h a b spec rule: sort'.induct)
  case (1 h a b)
  then show ?case by simp
next
  case (2 h a b field direction rest)
  have c: "comparable (get_field a field) (get_field b field)" using 2 by simp
  show ?case
  proof (cases "loose_equals h (get_field a field) (get_field b field)")
    case True
    then show ?thesis using comparable_equal [OF c True] 2 by simp
  next
    case False
    then show ?thesis using comparable_differ [OF c False] by auto
  qed
qed

text \<open>
  C7, as amended. The comparator goes through the fields of the options in order. The
  first field by which \<open>>\<close> or \<open><\<close> orders the two records decides: the direction when
  the value of \<open>a\<close> is greater, its negation when it is less. A field whose two values
  neither comparison orders is passed over, also when the values differ; if no field
  orders the records the result is 0. Fields that the options do not list have no
  influence. When the two values of every listed field are numbers other than \<open>NaN\<close>,
  or two strings, or two booleans, the first field whose values differ decides, as the
  specification has it.
\<close>

theorem C7_comparator:
  "sort' h a b spec =
     (case first_ordered h a b spec of
        None \<Rightarrow> 0
      | Some (f, d) \<Rightarrow> if js_greater h (get_field a f) (get_field b f) then d else - d)
   \<and> ((\<forall>f \<in> fst ` set spec. get_field a f = get_field a' f \<and> get_field b f = get_field b' f)
        \<longrightarrow> sort' h a b spec = sort' h a' b' spec)
   \<and> ((\<forall>f \<in> fst ` set spec. comparable (get_field a f) (get_field b f))
        \<longrightarrow> sort' h a b spec = compare_spec h a b spec)"
  using sort'_first_ordered [of h a b spec] sort'_listed_fields [of spec a a' b b' h]
    sort'_comparable [of spec a b h]
  by blast

text \<open>
  C7 as stated fails: under \<open>{age: 1, name: -1}\<close>, a record without an age and a
  record with the age 25 differ in the age, but neither \<open>>\<close> nor \<open><\<close> holds between
  \<open>undefined\<close> and 25; the age is passed over and the name decides.
\<close>

theorem C7_counterexample:
  "\<not> loose_equals example_host (get_field Abe ''age'') (get_field Cid ''age'')
   \<and> compare_spec example_host Abe Cid age_then_name = - 1
   \<and> sort' example_host Abe Cid age_then_name = 1"
  by (simp add: Abe_def Cid_def age_then_name_def get_field_def Object_prototype_names_def js_greater_def js_less_def
        example_host_def)

theorem C7_comparator_witness:
  "comparable (get_field Bob ''age'') (get_field Cid ''age'')
   \<and> comparable (get_field Bob ''name'') (get_field Cid ''name'')
   \<and> sort' example_host Bob Cid age_then_name = 1
   \<and> compare_spec example_host Bob Cid age_then_name = 1
   \<and> sort' example_host Ann Cid age_then_name = 1
   \<and> sort' example_host Cid Ann age_then_name = - 1
   \<and> sort' example_host Abe Cid age_then_name = 1
   \<and> sort' example_host Cid Cid age_then_name = 0
   \<and> get_field Ann_in_Rome ''city'' \<noteq> get_field Ann ''city''
   \<and> sort' example_host Ann_in_Rome Cid age_then_name = 1"
proof -
  have c: "\<forall>f \<in> fst ` set age_then_name. comparable (get_field Bob f) (get_field Cid f)"
    by (simp add: age_then_name_def Bob_def Cid_def get_field_def Object_prototype_names_def)
  have s: "compare_spec example_host Bob Cid age_then_name = 1"
    by (simp add: age_then_name_def Bob_def Cid_def get_field_def Object_prototype_names_def js_greater_def js_less_def)
  have "sort' example_host Bob Cid age_then_name = compare_spec example_host Bob Cid age_then_name"
    using C7_comparator [of example_host Bob Cid age_then_name] c by blast
  moreover have e: "sort' example_host Ann Cid age_then_name = 1"
    "sort' example_host Cid Ann age_then_name = - 1"
    "sort' example_host Abe Cid age_then_name = 1"
    "sort' example_host Cid Cid age_then_name = 0"
    by (simp_all add: age_then_name_def Ann_def Cid_def Abe_def get_field_def Object_prototype_names_def js_greater_def js_less_def
          example_host_def)
  moreover have "\<forall>f \<in> fst ` set age_then_name.
      get_field Ann_in_Rome f = get_field Ann f \<and> get_field Cid f = get_field Cid f"
    by (simp add: age_then_name_def Ann_in_Rome_def Ann_def get_field_def Object_prototype_names_def)
  then have "sort' example_host Ann_in_Rome Cid age_then_name
      = sort' example_host Ann Cid age_then_name"
    using C7_comparator [of example_host Ann_in_Rome Cid age_then_name Ann Cid] by blast
  ultimately show ?thesis
    using s by (simp add: Bob_def Cid_def Ann_in_Rome_def Ann_def get_field_def Object_prototype_names_def)
qed

end
